theory Spec2Isabelle
  imports Complex_Main "HOL-Library.Monad_Syntax" "HOL-Library.AList"
begin

section \<open>Values read from the remote services\<close>

text \<open>
  The hitter pipeline of \<^verbatim>\<open>app/hitter/stats.py\<close> reads one CSV row per request and keeps
  the rate statistics as strings and the counting statistics as integers.

  Python floats are idealised as exact rationals: NaN (an empty CSV field), the
  infinities and binary rounding error are outside the model. A CSV cell, as
  \<^verbatim>\<open>pandas.read_csv\<close> types it, is an integer, a float or text that pandas could not read
  as a number; for such text Python's \<^verbatim>\<open>int\<close> and \<^verbatim>\<open>float\<close> raise \<^verbatim>\<open>ValueError\<close> and a
  comparison with \<^verbatim>\<open>0\<close> raises \<^verbatim>\<open>TypeError\<close>.
\<close>

datatype cell = CInt int | CFloat rat | CStr string

text \<open>
  A Python string that holds a rate: a literal text (the marker \<^verbatim>\<open>'N/A'\<close> is
  \<open>Lit ''N/A''\<close>), or the result of \<^verbatim>\<open>str\<close> on an integer or on a float.
\<close>

datatype pystr = Lit string | OfInt int | OfFloat rat

datatype py_error = ValueError | TypeError | KeyError | UnboundLocalError

fun py_str :: "cell \<Rightarrow> pystr" where
  "py_str (CInt i) = OfInt i"
| "py_str (CFloat q) = OfFloat q"
| "py_str (CStr s) = Lit s"

text \<open>\<^verbatim>\<open>int(x)\<close> on a cell: truncation towards zero on a float, \<open>None\<close> where Python raises.\<close>

fun py_int :: "cell \<Rightarrow> int option" where
  "py_int (CInt i) = Some i"
| "py_int (CFloat q) = Some (if 0 \<le> q then \<lfloor>q\<rfloor> else \<lceil>q\<rceil>)"
| "py_int (CStr s) = None"

text \<open>\<^verbatim>\<open>float(x)\<close> on a cell.\<close>

fun py_float :: "cell \<Rightarrow> rat option" where
  "py_float (CInt i) = Some (of_int i)"
| "py_float (CFloat q) = Some q"
| "py_float (CStr s) = None"

text \<open>\<^verbatim>\<open>float(s)\<close> on a stored string: a literal text such as \<^verbatim>\<open>'N/A'\<close> raises \<^verbatim>\<open>ValueError\<close>.\<close>

fun float_of_str :: "pystr \<Rightarrow> py_error + rat" where
  "float_of_str (Lit s) = Inl ValueError"
| "float_of_str (OfInt i) = Inr (of_int i)"
| "float_of_str (OfFloat q) = Inr q"

text \<open>\<^verbatim>\<open>x > 0\<close> on a cell; \<open>None\<close> is the \<^verbatim>\<open>TypeError\<close> of comparing text with a number.\<close>

fun gt_zero :: "cell \<Rightarrow> bool option" where
  "gt_zero (CInt i) = Some (0 < i)"
| "gt_zero (CFloat q) = Some (0 < q)"
| "gt_zero (CStr s) = None"

text \<open>
  \<^verbatim>\<open>round(x, 3)\<close>: to three decimals, a tie going to the even neighbour. (On binary floats
  a decimal tie is rarely an exact tie; no statement below rests on how ties fall.)
\<close>

definition round3 :: "rat \<Rightarrow> rat" where
  "round3 q =
     (let f = \<lfloor>q * 1000\<rfloor>; d = q * 1000 - of_int f
      in if d < 1 / 2 then of_int f / 1000
         else if 1 / 2 < d then of_int (f + 1) / 1000
         else if even f then of_int f / 1000 else of_int (f + 1) / 1000)"

text \<open>\<^verbatim>\<open>str(n)\<close> for an integer, as the f-strings of the URLs render season and player.\<close>

fun digits :: "nat \<Rightarrow> string" where
  "digits n =
     (if n < 10 then [''0123456789'' ! n]
      else digits (n div 10) @ [''0123456789'' ! (n mod 10)])"

declare digits.simps [simp del]

definition str_int :: "int \<Rightarrow> string" where
  "str_int i = (if i < 0 then CHR ''-'' # digits (nat (- i)) else digits (nat i))"

text \<open>\<^verbatim>\<open>sep.join(xs)\<close> and \<^verbatim>\<open>s.startswith(p)\<close>.\<close>

fun join :: "string \<Rightarrow> string list \<Rightarrow> string" where
  "join sep [] = []"
| "join sep [x] = x"
| "join sep (x # y # ys) = x @ sep @ join sep (y # ys)"

definition startswith :: "string \<Rightarrow> string \<Rightarrow> bool" where
  "startswith s p = (take (length p) s = p)"

section \<open>The remote world\<close>

text \<open>
  A data frame is the list of its rows, each row giving the cells by column name; only the
  first row is ever read, and the columns are asked for only when there is a row.
  A response carries its status code and what \<^verbatim>\<open>pd.read_csv\<close> makes of its text
  (\<open>None\<close> when \<^verbatim>\<open>read_csv\<close> raises).
\<close>

type_synonym dataframe = "(string \<times> cell) list list"

record response =
  status_code :: int
  read_csv :: "dataframe option"

record player =
  id :: int
  fullName :: string

text \<open>
  The environment of one run: the directory lookup of \<^verbatim>\<open>statsapi\<close>, the answer of
  \<^verbatim>\<open>requests.get\<close> to each URL (\<open>None\<close> when the transport raises) and the reading of
  \<^verbatim>\<open>datetime.now()\<close>, formatted. Within one function, no URL is requested twice, and one
  reading of the clock stands for all readings of the run.
\<close>

record env =
  lookup_player :: "string \<Rightarrow> player list"
  requests_get :: "string \<Rightarrow> response option"
  now :: string

definition empty_frame :: "dataframe \<Rightarrow> bool" where
  "empty_frame data = (case data of [] \<Rightarrow> True | r # _ \<Rightarrow> r = [])"

definition columns :: "dataframe \<Rightarrow> string list" where
  "columns data = (case data of [] \<Rightarrow> [] | r # _ \<Rightarrow> map fst r)"

text \<open>\<^verbatim>\<open>data[c].values[0]\<close>; \<open>None\<close> is the \<^verbatim>\<open>KeyError\<close> of an absent column.\<close>

definition value0 :: "dataframe \<Rightarrow> string \<Rightarrow> cell option" where
  "value0 data c = (case data of [] \<Rightarrow> None | r # _ \<Rightarrow> map_of r c)"

section \<open>Split records\<close>

text \<open>
  An entry of the summary: the dict with the keys \<^verbatim>\<open>avg\<close>, \<^verbatim>\<open>ops\<close>, \<^verbatim>\<open>hr\<close>, \<^verbatim>\<open>ab\<close> and, for
  pitch types and notable splits, \<^verbatim>\<open>name\<close>.
\<close>

record entry =
  name :: "string option"
  avg :: pystr
  ops :: pystr
  hr :: int
  ab :: int

text \<open>
  A split record is a Python dict with a fixed vocabulary of keys, not all of them
  present in every record; a field is \<open>None\<close> when the key is absent.
\<close>

record stats =
  split_name :: "string option"
  params :: "(string \<times> string) list option"
  avg :: "pystr option"
  slg :: "pystr option"
  obp :: "pystr option"
  ops :: "pystr option"
  homeRuns :: "int option"
  hits :: "int option"
  singles :: "int option"
  doubles :: "int option"
  triples :: "int option"
  strikeOuts :: "int option"
  baseOnBalls :: "int option"
  atBats :: "int option"
  plateAppearances :: "int option"
  whiffs :: "int option"
  swings :: "int option"
  whiff_rate :: "pystr option"
  lastUpdated :: "string option"

definition no_stats :: stats where
  "no_stats =
     \<lparr>split_name = None, params = None, avg = None, slg = None, obp = None, ops = None,
      homeRuns = None, hits = None, singles = None, doubles = None, triples = None,
      strikeOuts = None, baseOnBalls = None, atBats = None, plateAppearances = None,
      whiffs = None, swings = None, whiff_rate = None, lastUpdated = None\<rparr>"

section \<open>Identity lookup\<close>

text \<open>
  \<^verbatim>\<open>get_player_id\<close>: \<open>None\<close> when the directory finds nobody, otherwise the identifier of
  the first candidate.
\<close>

definition get_player_id :: "env \<Rightarrow> string \<Rightarrow> int option" where
  "get_player_id e player_name =
     (case lookup_player e player_name of
        [] \<Rightarrow> None
      | p # _ \<Rightarrow> Some (id p))"


section \<open>The dimension fetchers\<close>

text \<open>
  Every call of a fetcher issues exactly one request. The list of the URLs requested so
  far is threaded through the calls, so that what was asked of the remote service can be
  stated.
\<close>

type_synonym trace = "string list"

definition required_columns :: "string list" where
  "required_columns =
     [''ba'', ''slg'', ''obp'', ''hrs'', ''singles'', ''doubles'', ''triples'', ''so'', ''bb'',
      ''abs'', ''pa'']"

text \<open>\<^verbatim>\<open>int(data[c].values[0])\<close> and \<^verbatim>\<open>float(data[c].values[0])\<close>, \<open>None\<close> where they raise.\<close>

definition int_col :: "dataframe \<Rightarrow> string \<Rightarrow> int option" where
  "int_col data c = Option.bind (value0 data c) py_int"

definition float_col :: "dataframe \<Rightarrow> string \<Rightarrow> rat option" where
  "float_col data c = Option.bind (value0 data c) py_float"

definition str_col :: "dataframe \<Rightarrow> string \<Rightarrow> pystr option" where
  "str_col data c = map_option py_str (value0 data c)"

subsection \<open>\<^verbatim>\<open>get_baseball_savant_data\<close>\<close>

text \<open>
  \<^verbatim>\<open>split_name\<close> is assigned only for the parameters \<^verbatim>\<open>pitcher_throws\<close> and
  \<^verbatim>\<open>home_road\<close>; for any other parameter name it stays unbound.
\<close>

definition savant_split_name :: "string \<Rightarrow> string \<Rightarrow> string option" where
  "savant_split_name parameter_name parameter_value =
     (if parameter_name = ''pitcher_throws'' then Some (''vs '' @ parameter_value @ ''HP'')
      else if parameter_name = ''home_road''
        then Some (if parameter_value = ''Home'' then parameter_value else ''Away'')
      else None)"

definition savant_param_string :: "string \<Rightarrow> string \<Rightarrow> string" where
  "savant_param_string parameter_name parameter_value =
     (if parameter_name = ''pitcher_throws'' then ''pitcher_throws='' @ parameter_value
      else if parameter_name = ''home_road'' then ''home_road='' @ parameter_value
      else [])"

definition savant_url :: "int \<Rightarrow> int \<Rightarrow> string \<Rightarrow> string \<Rightarrow> string" where
  "savant_url player_id season parameter_name parameter_value =
     ''https://baseballsavant.mlb.com/statcast_search/csv?hfPT=&hfAB=&hfGT=R%7C&hfPR=&hfZ=&stadium=&hfBBL=&hfNewZones=&hfPull=&hfC=&hfSea=''
     @ str_int season
     @ ''%7C&hfSit=&player_type=batter&hfOuts=&opponent=&''
     @ savant_param_string parameter_name parameter_value
     @ ''&batter_stands=&hfSA=&game_date_gt=&game_date_lt=&hfInfield=&team=&position=&hfOutfield=&hfRO=&hfFlag=&hfBBT=&metric_1=&hfInn=&min_pitches=0&min_results=0&group_by=name-stats&sort_col=xwoba&player_event_sort=api_p_release_speed&sort_order=desc&min_pas=0&player_id=''
     @ str_int player_id"

text \<open>
  What the body of the \<^verbatim>\<open>try\<close> makes of the answer: the record built from a row that
  has every required column, and the checks before it. Every exception is caught and turned
  into \<open>None\<close>: a transport failure, a failing \<^verbatim>\<open>read_csv\<close>, a cell that \<^verbatim>\<open>int\<close> or
  \<^verbatim>\<open>float\<close> rejects, and the \<^verbatim>\<open>UnboundLocalError\<close> of printing an unbound
  \<^verbatim>\<open>split_name\<close>, which also hits the success path.
\<close>

definition savant_record :: "string \<Rightarrow> string option \<Rightarrow> dataframe \<Rightarrow> stats option" where
  "savant_record clock nm data =
     do {
       ba \<leftarrow> str_col data ''ba'';
       slg_s \<leftarrow> str_col data ''slg'';
       obp_s \<leftarrow> str_col data ''obp'';
       obp_f \<leftarrow> float_col data ''obp'';
       slg_f \<leftarrow> float_col data ''slg'';
       hrs \<leftarrow> int_col data ''hrs'';
       s1 \<leftarrow> int_col data ''singles'';
       s2 \<leftarrow> int_col data ''doubles'';
       s3 \<leftarrow> int_col data ''triples'';
       so \<leftarrow> int_col data ''so'';
       bb \<leftarrow> int_col data ''bb'';
       ab \<leftarrow> int_col data ''abs'';
       pa \<leftarrow> int_col data ''pa'';
       _ \<leftarrow> nm;
       Some (no_stats
         \<lparr>avg := Some ba, slg := Some slg_s, obp := Some obp_s,
          ops := Some (OfFloat (obp_f + slg_f)),
          homeRuns := Some hrs, singles := Some s1, doubles := Some s2,
          triples := Some s3, strikeOuts := Some so,
          baseOnBalls := Some bb, atBats := Some ab,
          plateAppearances := Some pa, lastUpdated := Some clock\<rparr>)
     }"

definition savant_stats ::
  "string \<Rightarrow> string option \<Rightarrow> response option \<Rightarrow> stats option" where
  "savant_stats clock nm answer =
     (case answer of
        None \<Rightarrow> None
      | Some response \<Rightarrow>
          if status_code response = 200 then
            (case read_csv response of
               None \<Rightarrow> None
             | Some data \<Rightarrow>
                 if \<not> empty_frame data then
                   (let missing_columns =
                          filter (\<lambda>col. col \<notin> set (columns data)) required_columns
                    in if missing_columns \<noteq> [] then None
                       else savant_record clock nm data)
                 else None)
          else None)"

definition get_baseball_savant_data ::
  "env \<Rightarrow> int \<Rightarrow> int \<Rightarrow> string \<Rightarrow> string \<Rightarrow> trace \<Rightarrow> stats option \<times> trace" where
  "get_baseball_savant_data e player_id season parameter_name parameter_value tr =
     (let url = savant_url player_id season parameter_name parameter_value
      in (savant_stats (now e) (savant_split_name parameter_name parameter_value)
            (requests_get e url),
          tr @ [url]))"

subsection \<open>\<^verbatim>\<open>get_combined_split_data\<close>\<close>

definition pitch_type_names :: "(string \<times> string) list" where
  "pitch_type_names =
     [(''FF'', ''Fastball (4-seam)''), (''SI'', ''Sinker (2-Seam)''), (''FC'', ''Cutter''),
      (''CH'', ''Changeup''), (''FS'', ''Split-finger''), (''FO'', ''Forkball''),
      (''SC'', ''Screwball''), (''CU'', ''Curveball''), (''KC'', ''Knuckle Curve''),
      (''CS'', ''Slow Curve''), (''SL'', ''Slider''), (''ST'', ''Sweeper''),
      (''SV'', ''Slurve''), (''KN'', ''Knuckleball''), (''EP'', ''Eephus''),
      (''FA'', ''Other''), (''IN'', ''Intentional Ball''), (''PO'', ''Pitchout'')]"

text \<open>The parameters are a dict: an association list in insertion order.\<close>

definition combined_split_name :: "(string \<times> string) list \<Rightarrow> string" where
  "combined_split_name ps =
     join '' ''
       ((case map_of ps ''home_road'' of None \<Rightarrow> [] | Some v \<Rightarrow> [v])
        @ (case map_of ps ''pitcher_throws'' of None \<Rightarrow> [] | Some v \<Rightarrow> [''vs '' @ v @ ''HP''])
        @ (case map_of ps ''pitch_type'' of
             None \<Rightarrow> []
           | Some v \<Rightarrow>
               [''on '' @ (case map_of pitch_type_names v of None \<Rightarrow> v | Some n \<Rightarrow> n)]))"

definition url_params :: "(string \<times> string) list \<Rightarrow> string list" where
  "url_params ps =
     (case map_of ps ''pitch_type'' of
        Some v \<Rightarrow> [''hfPT='' @ v @ ''%7C'']
      | None \<Rightarrow> [''hfPT=''])
     @ concat (map (\<lambda>(param_name, param_value).
                 if param_name = ''pitch_type'' then []
                 else if param_name = ''home_road'' then [''home_road='' @ param_value]
                 else if param_name = ''pitcher_throws''
                   then [''pitcher_throws='' @ param_value]
                 else []) ps)"

definition combined_url :: "int \<Rightarrow> int \<Rightarrow> (string \<times> string) list \<Rightarrow> string" where
  "combined_url player_id season ps =
     ''https://baseballsavant.mlb.com/statcast_search/csv?''
     @ join ''&'' (url_params ps)
     @ ''&hfAB=&hfGT=R%7C&hfPR=&hfZ=&stadium=&hfBBL=&hfNewZones=&hfPull=&hfC=&hfSea=''
     @ str_int season
     @ ''%7C&hfSit=&player_type=batter&hfOuts=&opponent=&batter_stands=&hfSA=&game_date_gt=&game_date_lt=&hfInfield=&team=&position=&hfOutfield=&hfRO=&hfFlag=&hfBBT=&metric_1=&hfInn=&min_pitches=0&min_results=0&group_by=name-stats&sort_col=xwoba&player_event_sort=api_p_release_speed&sort_order=desc&min_pas=0&player_id=''
     @ str_int player_id"

text \<open>
  The defensive reads: \<^verbatim>\<open>str(data[c].values[0]) if c in data.columns else 'N/A'\<close> and
  \<^verbatim>\<open>int(data[c].values[0]) if c in data.columns else 0\<close>.
\<close>

definition str_or_na :: "dataframe \<Rightarrow> string \<Rightarrow> pystr option" where
  "str_or_na data c =
     (if c \<in> set (columns data) then str_col data c else Some (Lit ''N/A''))"

definition int_or_zero :: "dataframe \<Rightarrow> string \<Rightarrow> int option" where
  "int_or_zero data c = (if c \<in> set (columns data) then int_col data c else Some 0)"

definition ops_or_na :: "dataframe \<Rightarrow> pystr option" where
  "ops_or_na data =
     (if ''obp'' \<in> set (columns data) \<and> ''slg'' \<in> set (columns data)
      then do {
        obp_f \<leftarrow> float_col data ''obp'';
        slg_f \<leftarrow> float_col data ''slg'';
        Some (OfFloat (obp_f + slg_f))
      }
      else Some (Lit ''N/A''))"

text \<open>The additional metrics, added to the record when both columns are there.\<close>

definition add_whiffs :: "dataframe \<Rightarrow> stats \<Rightarrow> stats option" where
  "add_whiffs data st =
     (if ''whiffs'' \<in> set (columns data) \<and> ''swings'' \<in> set (columns data)
      then do {
        w \<leftarrow> int_col data ''whiffs'';
        s \<leftarrow> int_col data ''swings'';
        sw \<leftarrow> value0 data ''swings'';
        pos \<leftarrow> gt_zero sw;
        if pos then do {
          wf \<leftarrow> float_col data ''whiffs'';
          sf \<leftarrow> float_col data ''swings'';
          Some (st\<lparr>whiffs := Some w, swings := Some s,
                   whiff_rate := Some (OfFloat (round3 (wf / sf)))\<rparr>)
        }
        else Some (st\<lparr>whiffs := Some w, swings := Some s\<rparr>)
      }
      else Some st)"

text \<open>
  What the body of the \<^verbatim>\<open>try\<close> makes of the answer: the record built from a row with
  positive at-bats, and the checks before it. As above, every exception is caught and
  turned into \<open>None\<close>.
\<close>

definition combined_record ::
  "string \<Rightarrow> string \<Rightarrow> (string \<times> string) list \<Rightarrow> dataframe \<Rightarrow> stats option" where
  "combined_record clock label ps data =
     do {
       ba \<leftarrow> str_or_na data ''ba'';
       slg_s \<leftarrow> str_or_na data ''slg'';
       obp_s \<leftarrow> str_or_na data ''obp'';
       ops_s \<leftarrow> ops_or_na data;
       hrs \<leftarrow> int_or_zero data ''hrs'';
       h \<leftarrow> int_or_zero data ''hits'';
       ab \<leftarrow> int_or_zero data ''abs'';
       pa \<leftarrow> int_or_zero data ''pa'';
       so \<leftarrow> int_or_zero data ''so'';
       bb \<leftarrow> int_or_zero data ''bb'';
       add_whiffs data (no_stats
         \<lparr>split_name := Some label, params := Some ps,
          avg := Some ba, slg := Some slg_s, obp := Some obp_s,
          ops := Some ops_s, homeRuns := Some hrs, hits := Some h,
          strikeOuts := Some so, baseOnBalls := Some bb,
          atBats := Some ab, plateAppearances := Some pa,
          lastUpdated := Some clock\<rparr>)
     }"

definition combined_stats ::
  "string \<Rightarrow> string \<Rightarrow> (string \<times> string) list \<Rightarrow> response option \<Rightarrow> stats option" where
  "combined_stats clock label ps answer =
     (case answer of
        None \<Rightarrow> None
      | Some response \<Rightarrow>
          if status_code response = 200 then
            (case read_csv response of
               None \<Rightarrow> None
             | Some data \<Rightarrow>
                 if \<not> empty_frame data then
                   (if ''abs'' \<in> set (columns data) then
                      (case value0 data ''abs'' of
                         None \<Rightarrow> None
                       | Some a \<Rightarrow>
                           (case gt_zero a of
                              None \<Rightarrow> None
                            | Some pos \<Rightarrow>
                                if pos then combined_record clock label ps data else None))
                    else None)
                 else None)
          else None)"

definition get_combined_split_data ::
  "env \<Rightarrow> int \<Rightarrow> int \<Rightarrow> (string \<times> string) list \<Rightarrow> trace \<Rightarrow> stats option \<times> trace" where
  "get_combined_split_data e player_id season ps tr =
     (let url = combined_url player_id season ps
      in (combined_stats (now e) (combined_split_name ps) ps (requests_get e url),
          tr @ [url]))"



text \<open>A cell that \<^verbatim>\<open>int\<close> and \<^verbatim>\<open>float\<close> accept.\<close>

fun numeric :: "cell \<Rightarrow> bool" where
  "numeric (CStr s) = False"
| "numeric c = True"


section \<open>The aggregator\<close>

definition pitch_types :: "string list" where
  "pitch_types =
     [''FF'', ''SI'', ''FC'', ''CH'', ''FS'', ''FO'', ''SC'', ''CU'', ''KC'', ''CS'', ''SL'', ''ST'',
      ''SV'', ''KN'', ''EP'']"

definition pitcher_hands :: "string list" where
  "pitcher_hands = [''L'', ''R'']"

definition locations :: "string list" where
  "locations = [''Home'', ''Road'']"

definition pitch_groups :: "(string \<times> string list) list" where
  "pitch_groups =
     [(''Fastball'', [''FF'', ''SI'', ''FC'']),
      (''Breaking'', [''CU'', ''KC'', ''CS'', ''SL'', ''ST'', ''SV'', ''KN'']),
      (''Offspeed'', [''CH'', ''FS'', ''FO'', ''SC''])]"

text \<open>The keys of the report, as the f-strings build them.\<close>

definition pitch_key :: "string \<Rightarrow> string" where
  "pitch_key pitch = ''pitch_'' @ pitch"

definition hand_key :: "string \<Rightarrow> string \<Rightarrow> string" where
  "hand_key pitch hand = ''pitch_'' @ pitch @ ''_hand_'' @ hand"

definition loc_key :: "string \<Rightarrow> string \<Rightarrow> string \<Rightarrow> string" where
  "loc_key pitch hand location = ''pitch_'' @ pitch @ ''_hand_'' @ hand @ ''_loc_'' @ location"

definition group_key :: "string \<Rightarrow> string \<Rightarrow> string" where
  "group_key group_name hand = ''group_'' @ group_name @ ''_hand_'' @ hand"

text \<open>
  The \<^verbatim>\<open>splits\<close> dict keeps its keys in insertion order; assigning to a key replaces the
  value in place or appends the key (\<open>AList.update\<close>).
\<close>

type_synonym splits_dict = "(string \<times> stats) list"

text \<open>\<^verbatim>\<open>data.get('atBats', 0)\<close>.\<close>

definition at_bats :: "stats \<Rightarrow> int" where
  "at_bats data = (case atBats data of None \<Rightarrow> 0 | Some a \<Rightarrow> a)"

subsection \<open>The gated expansion over pitch type, handedness and location\<close>

definition location_step ::
  "env \<Rightarrow> int \<Rightarrow> int \<Rightarrow> string \<Rightarrow> string \<Rightarrow> string \<Rightarrow> splits_dict \<times> trace
     \<Rightarrow> splits_dict \<times> trace" where
  "location_step e player_id season pitch hand location st =
     (case get_combined_split_data e player_id season
             [(''pitch_type'', pitch), (''pitcher_throws'', hand), (''home_road'', location)]
             (snd st) of
        (None, tr) \<Rightarrow> (fst st, tr)
      | (Some loc_data, tr) \<Rightarrow>
          if 5 \<le> at_bats loc_data
          then (AList.update (loc_key pitch hand location) loc_data (fst st), tr)
          else (fst st, tr))"

definition hand_step ::
  "env \<Rightarrow> int \<Rightarrow> int \<Rightarrow> string \<Rightarrow> string \<Rightarrow> splits_dict \<times> trace \<Rightarrow> splits_dict \<times> trace" where
  "hand_step e player_id season pitch hand st =
     (case get_combined_split_data e player_id season
             [(''pitch_type'', pitch), (''pitcher_throws'', hand)] (snd st) of
        (None, tr) \<Rightarrow> (fst st, tr)
      | (Some hand_data, tr) \<Rightarrow>
          if 5 \<le> at_bats hand_data
          then fold (location_step e player_id season pitch hand) locations
                 (AList.update (hand_key pitch hand) hand_data (fst st), tr)
          else (fst st, tr))"

definition pitch_step ::
  "env \<Rightarrow> int \<Rightarrow> int \<Rightarrow> string \<Rightarrow> splits_dict \<times> trace \<Rightarrow> splits_dict \<times> trace" where
  "pitch_step e player_id season pitch st =
     (case get_combined_split_data e player_id season [(''pitch_type'', pitch)] (snd st) of
        (None, tr) \<Rightarrow> (fst st, tr)
      | (Some pitch_data, tr) \<Rightarrow>
          if 5 \<le> at_bats pitch_data
          then fold (hand_step e player_id season pitch) pitcher_hands
                 (AList.update (pitch_key pitch) pitch_data (fst st), tr)
          else (fst st, tr))"

definition pitch_loop :: "env \<Rightarrow> int \<Rightarrow> int \<Rightarrow> trace \<Rightarrow> splits_dict \<times> trace" where
  "pitch_loop e player_id season tr = fold (pitch_step e player_id season) pitch_types ([], tr)"

subsection \<open>The group rollups\<close>

text \<open>
  \<^verbatim>\<open>sum(float(d[k]) for d in hand_data if d[k] != 'N/A')\<close> and
  \<^verbatim>\<open>sum(d[k] for d in hand_data)\<close>. Subscripting with an absent key raises \<^verbatim>\<open>KeyError\<close>,
  \<^verbatim>\<open>float\<close> on a text other than a number raises \<^verbatim>\<open>ValueError\<close>; nothing catches them.
\<close>

fun float_sum :: "(stats \<Rightarrow> pystr option) \<Rightarrow> stats list \<Rightarrow> py_error + rat" where
  "float_sum f [] = Inr 0"
| "float_sum f (d # ds) =
     (case f d of
        None \<Rightarrow> Inl KeyError
      | Some v \<Rightarrow>
          if v \<noteq> Lit ''N/A'' then
            (case float_of_str v of
               Inl err \<Rightarrow> Inl err
             | Inr x \<Rightarrow> (case float_sum f ds of Inl err \<Rightarrow> Inl err | Inr s \<Rightarrow> Inr (x + s)))
          else float_sum f ds)"

fun int_sum :: "(stats \<Rightarrow> int option) \<Rightarrow> stats list \<Rightarrow> py_error + int" where
  "int_sum f [] = Inr 0"
| "int_sum f (d # ds) =
     (case f d of
        None \<Rightarrow> Inl KeyError
      | Some x \<Rightarrow> (case int_sum f ds of Inl err \<Rightarrow> Inl err | Inr s \<Rightarrow> Inr (x + s)))"

text \<open>The records already stored for the pitches of a group and a hand.\<close>

definition hand_data_of :: "splits_dict \<Rightarrow> string list \<Rightarrow> string \<Rightarrow> stats list" where
  "hand_data_of sp group_pitches hand =
     concat (map (\<lambda>pitch. case map_of sp (hand_key pitch hand) of
                             None \<Rightarrow> [] | Some d \<Rightarrow> [d]) group_pitches)"

text \<open>
  The summary of a group against a hand: \<open>Inr None\<close> when nothing is stored, \<open>Inl\<close> when
  one of the sums raises.
\<close>

definition group_summary ::
  "string \<Rightarrow> string \<Rightarrow> string \<Rightarrow> stats list \<Rightarrow> py_error + stats option" where
  "group_summary clock group_name hand hand_data =
     (if hand_data \<noteq> [] then
        (case float_sum avg hand_data of
           Inl err \<Rightarrow> Inl err
         | Inr avg_sum \<Rightarrow>
        (case float_sum ops hand_data of
           Inl err \<Rightarrow> Inl err
         | Inr ops_sum \<Rightarrow>
        (case int_sum atBats hand_data of
           Inl err \<Rightarrow> Inl err
         | Inr ab_sum \<Rightarrow>
        (case int_sum homeRuns hand_data of
           Inl err \<Rightarrow> Inl err
         | Inr hr_sum \<Rightarrow>
             if 0 < length hand_data \<and> 0 < ab_sum then
               Inr (Some (no_stats
                 \<lparr>split_name := Some (group_name @ '' pitches vs '' @ hand @ ''HP''),
                  avg := Some (OfFloat (round3 (avg_sum / of_nat (length hand_data)))),
                  ops := Some (OfFloat (round3 (ops_sum / of_nat (length hand_data)))),
                  atBats := Some ab_sum,
                  homeRuns := Some hr_sum,
                  lastUpdated := Some clock\<rparr>))
             else Inr None))))
      else Inr None)"

definition group_step ::
  "string \<Rightarrow> string \<times> string list \<Rightarrow> string \<Rightarrow> splits_dict \<Rightarrow> py_error + splits_dict" where
  "group_step clock g hand sp =
     (case group_summary clock (fst g) hand (hand_data_of sp (snd g) hand) of
        Inl err \<Rightarrow> Inl err
      | Inr None \<Rightarrow> Inr sp
      | Inr (Some rollup) \<Rightarrow> Inr (AList.update (group_key (fst g) hand) rollup sp))"

text \<open>A loop whose body may raise: the first exception ends it.\<close>

fun fold_err :: "('a \<Rightarrow> 's \<Rightarrow> 'e + 's) \<Rightarrow> 'a list \<Rightarrow> 's \<Rightarrow> 'e + 's" where
  "fold_err f [] s = Inr s"
| "fold_err f (x # xs) s = (case f x s of Inl err \<Rightarrow> Inl err | Inr s' \<Rightarrow> fold_err f xs s')"

definition group_loop :: "string \<Rightarrow> splits_dict \<Rightarrow> py_error + splits_dict" where
  "group_loop clock sp =
     fold_err (\<lambda>g. fold_err (group_step clock g) pitcher_hands) pitch_groups sp"

subsection \<open>\<^verbatim>\<open>get_detailed_pitch_splits\<close>\<close>

record report =
  player_id :: int
  season :: int
  lastUpdated :: string
  splits :: splits_dict

definition get_detailed_pitch_splits ::
  "env \<Rightarrow> int \<Rightarrow> int \<Rightarrow> trace \<Rightarrow> (py_error + report) \<times> trace" where
  "get_detailed_pitch_splits e pid yr tr =
     (let st = pitch_loop e pid yr tr
      in ((case group_loop (now e) (fst st) of
             Inl err \<Rightarrow> Inl err
           | Inr sp \<Rightarrow>
               Inr \<lparr>player_id = pid, season = yr, lastUpdated = now e, splits = sp\<rparr>),
          snd st))"


section \<open>The summarizer\<close>

record summary =
  player :: "string \<times> int"
  season :: int
  basic_splits :: "(string \<times> entry) list"
  pitch_type_summary :: "(string \<times> entry) list"
  handedness_summary :: "(string \<times> entry) list"
  location_summary :: "(string \<times> entry) list"
  notable_splits :: "entry list"

text \<open>All the data of a run: a dict whose four keys are set one after the other.\<close>

record all_data =
  basic_splits :: "(string \<times> stats) list option"
  pitch_data :: "(string \<times> stats) list option"
  detailed_splits :: "report option"
  summary :: "summary option"



definition home_runs :: "stats \<Rightarrow> int" where
  "home_runs data = (case homeRuns data of None \<Rightarrow> 0 | Some n \<Rightarrow> n)"












section \<open>The career files\<close>

text \<open>
  The first stage of \<^verbatim>\<open>get_complete_player_data\<close>: the basic splits, collected by five
  calls of \<^verbatim>\<open>get_baseball_savant_data\<close>.
\<close>

definition basic_step ::
  "env \<Rightarrow> int \<Rightarrow> int \<Rightarrow> string \<times> string \<times> string \<Rightarrow> (string \<times> stats) list \<times> trace
     \<Rightarrow> (string \<times> stats) list \<times> trace" where
  "basic_step e pid yr q st =
     (case q of (parameter_name, parameter_value, key) \<Rightarrow>
        (case get_baseball_savant_data e pid yr parameter_name parameter_value (snd st) of
           (None, tr) \<Rightarrow> (fst st, tr)
         | (Some d, tr) \<Rightarrow> (AList.update key d (fst st), tr)))"

definition collect_basic_splits ::
  "env \<Rightarrow> int \<Rightarrow> int \<Rightarrow> trace \<Rightarrow> (string \<times> stats) list \<times> trace" where
  "collect_basic_splits e pid yr tr =
     fold (basic_step e pid yr)
       [(''overall'', ''total'', ''overall''),
        (''pitcher_throws'', ''R'', ''vs RHP''),
        (''pitcher_throws'', ''L'', ''vs LHP''),
        (''home_road'', ''Home'', ''Home''),
        (''home_road'', ''Road'', ''Away'')]
       ([], tr)"

text \<open>
  The two cumulative JSON documents. A file is missing, unreadable (\<^verbatim>\<open>json.load\<close> raises)
  or holds a dict; a file that cannot be opened for writing is left as it is.
\<close>

datatype 'a json_file = Missing | Unreadable | Content 'a

record career_data =
  player :: "(string \<times> int) option"
  seasons :: "(string \<times> (string \<times> stats) list) list option"
  lastUpdated :: "string option"

record player_seasons =
  player :: "string \<times> int"
  seasons :: "(string \<times> summary) list"
  lastUpdated :: "string option"

record disk =
  career_file :: "string \<Rightarrow> career_data json_file"
  all_players_file :: "(string \<times> player_seasons) list json_file"
  writable :: "string \<Rightarrow> bool"

definition career_filename :: "string \<Rightarrow> string" where
  "career_filename player_name =
     ''splits/'' @ map (\<lambda>c. if c = CHR '' '' then CHR ''_'' else c) player_name
     @ ''_career.json''"

definition update_career :: "disk \<Rightarrow> string \<Rightarrow> string \<Rightarrow> int \<Rightarrow> int \<Rightarrow> all_data \<Rightarrow> disk" where
  "update_career fs clock player_name pid yr ad =
     (case all_data.basic_splits ad of
        None \<Rightarrow> fs
      | Some bs \<Rightarrow>
          (let career_filename = career_filename player_name;
               loaded = (case career_file fs career_filename of
                           Content c \<Rightarrow> c
                         | _ \<Rightarrow> \<lparr>career_data.player = None, career_data.seasons = None,
                                career_data.lastUpdated = None\<rparr>);
               with_player = (case career_data.player loaded of
                                None \<Rightarrow> loaded\<lparr>career_data.player := Some (player_name, pid)\<rparr>
                              | Some _ \<Rightarrow> loaded);
               old_seasons = (case career_data.seasons with_player of
                                None \<Rightarrow> [] | Some ss \<Rightarrow> ss);
               updated = with_player
                 \<lparr>career_data.seasons := Some (AList.update (str_int yr) bs old_seasons),
                  career_data.lastUpdated := Some clock\<rparr>
           in if writable fs career_filename
              then fs\<lparr>career_file := (career_file fs)(career_filename := Content updated)\<rparr>
              else fs))"

definition update_all_players ::
  "disk \<Rightarrow> string \<Rightarrow> string \<Rightarrow> int \<Rightarrow> int \<Rightarrow> all_data \<Rightarrow> disk" where
  "update_all_players fs clock player_name pid yr ad =
     (let loaded = (case all_players_file fs of Content c \<Rightarrow> c | _ \<Rightarrow> []);
          with_player =
            (case map_of loaded player_name of
               None \<Rightarrow> AList.update player_name
                         \<lparr>player = (player_name, pid), seasons = [], lastUpdated = None\<rparr> loaded
             | Some _ \<Rightarrow> loaded);
          updated =
            (case all_data.summary ad of
               None \<Rightarrow> with_player
             | Some s \<Rightarrow>
                 AList.map_entry player_name
                   (\<lambda>p. p\<lparr>player_seasons.seasons :=
                              AList.update (str_int yr) s (player_seasons.seasons p),
                            player_seasons.lastUpdated := Some clock\<rparr>) with_player)
      in if writable fs ''all_players_career.json''
         then fs\<lparr>all_players_file := Content updated\<rparr>
         else fs)"

definition update_career_files ::
  "disk \<Rightarrow> string \<Rightarrow> string \<Rightarrow> int \<Rightarrow> int \<Rightarrow> all_data \<Rightarrow> disk" where
  "update_career_files fs clock player_name pid yr ad =
     update_all_players (update_career fs clock player_name pid yr ad)
       clock player_name pid yr ad"

text \<open>The entry of a season in a player's career file, if the file holds one.\<close>

definition season_entry :: "disk \<Rightarrow> string \<Rightarrow> int \<Rightarrow> (string \<times> stats) list option" where
  "season_entry fs player_name yr =
     (case career_file fs (career_filename player_name) of
        Content c \<Rightarrow>
          (case career_data.seasons c of None \<Rightarrow> None | Some ss \<Rightarrow> map_of ss (str_int yr))
      | _ \<Rightarrow> None)"


section \<open>Notions used in the statements\<close>

text \<open>
  The parsed values of a rate over a list of records, leaving out the records whose rate
  is \<^verbatim>\<open>'N/A'\<close>, absent or not a number: for \<^verbatim>\<open>avg\<close>, the numeric averages of the
  constituents of a rollup.
\<close>

definition numeric_of :: "(stats \<Rightarrow> pystr option) \<Rightarrow> stats list \<Rightarrow> rat list" where
  "numeric_of f ds =
     concat (map (\<lambda>d. case f d of
                          None \<Rightarrow> []
                        | Some v \<Rightarrow> (case float_of_str v of Inl err \<Rightarrow> [] | Inr a \<Rightarrow> [a])) ds)"

text \<open>A rate that is there and is \<^verbatim>\<open>'N/A'\<close> or a number, so that summing it does not raise.\<close>

definition summable_rate :: "pystr option \<Rightarrow> bool" where
  "summable_rate r =
     (case r of
        None \<Rightarrow> False
      | Some v \<Rightarrow> v = Lit ''N/A'' \<or> (case float_of_str v of Inl err \<Rightarrow> False | Inr a \<Rightarrow> True))"

text \<open>A constituent of a rollup, with its four fields read by the rollup.\<close>

definition constituent :: "pystr \<Rightarrow> pystr \<Rightarrow> int \<Rightarrow> int \<Rightarrow> stats" where
  "constituent a s n h =
     no_stats\<lparr>avg := Some a, ops := Some s, atBats := Some n, homeRuns := Some h\<rparr>"

text \<open>
  What \<^verbatim>\<open>get_combined_split_data\<close> returns for a dict of parameters (it does not depend on
  the requests made before), and whether the result passes the gate of five at-bats.
\<close>

definition fetched :: "env \<Rightarrow> int \<Rightarrow> int \<Rightarrow> (string \<times> string) list \<Rightarrow> stats option" where
  "fetched e pid yr ps = fst (get_combined_split_data e pid yr ps [])"

definition accepted :: "env \<Rightarrow> int \<Rightarrow> int \<Rightarrow> (string \<times> string) list \<Rightarrow> bool" where
  "accepted e pid yr ps =
     (case fetched e pid yr ps of None \<Rightarrow> False | Some d \<Rightarrow> 5 \<le> at_bats d)"

text \<open>The parameter dicts of the three levels of the expansion.\<close>

definition by_pitch :: "string \<Rightarrow> (string \<times> string) list" where
  "by_pitch p = [(''pitch_type'', p)]"

definition by_hand :: "string \<Rightarrow> string \<Rightarrow> (string \<times> string) list" where
  "by_hand p h = [(''pitch_type'', p), (''pitcher_throws'', h)]"

definition by_location :: "string \<Rightarrow> string \<Rightarrow> string \<Rightarrow> (string \<times> string) list" where
  "by_location p h l = [(''pitch_type'', p), (''pitcher_throws'', h), (''home_road'', l)]"

text \<open>
  The invariant of the expansion: every record stored so far sits under a key that starts
  with \<^verbatim>\<open>pitch_\<close> and is the result of a fetch that passed the gate.
\<close>

definition stored_ok :: "env \<Rightarrow> int \<Rightarrow> int \<Rightarrow> splits_dict \<times> trace \<Rightarrow> bool" where
  "stored_ok e pid yr st \<longleftrightarrow>
     (\<forall>(k, d) \<in> set (fst st). startswith k ''pitch_'' \<and>
        (\<exists>ps. accepted e pid yr ps \<and> fetched e pid yr ps = Some d))"

text \<open>
  A record whose four fields read by the rollup are there, the two rates being
  \<^verbatim>\<open>'N/A'\<close> or numbers; and a remote service none of whose rows holds a text cell.
\<close>

definition rollable :: "stats \<Rightarrow> bool" where
  "rollable d \<longleftrightarrow>
     summable_rate (stats.avg d) \<and> summable_rate (stats.ops d) \<and> atBats d \<noteq> None \<and> homeRuns d \<noteq> None"

definition numeric_remote :: "env \<Rightarrow> bool" where
  "numeric_remote e \<longleftrightarrow>
     (\<forall>u r data c x. requests_get e u = Some r \<and> read_csv r = Some data \<and>
        value0 data c = Some x \<longrightarrow> numeric x)"



text \<open>
  The constituents of the rollup of a group against a hand: the records the report holds
  for the pitch types of the group against that hand, in the order of the group. And the
  arithmetic mean of a list of numbers.
\<close>

definition constituents :: "report \<Rightarrow> string list \<Rightarrow> string \<Rightarrow> stats list" where
  "constituents rep group_pitches hand = hand_data_of (splits rep) group_pitches hand"

definition mean :: "rat list \<Rightarrow> rat" where
  "mean xs = sum_list xs / of_nat (length xs)"

section \<open>Example environments\<close>

text \<open>A directory that knows two players called Will Smith and nobody else.\<close>

definition two_smiths :: env where
  "two_smiths =
     \<lparr>lookup_player = (\<lambda>n. if n = ''Will Smith''
                             then [\<lparr>id = 669257, fullName = ''Will Smith''\<rparr>,
                                   \<lparr>id = 519293, fullName = ''Will Smith''\<rparr>]
                             else []),
      requests_get = (\<lambda>u. None),
      now = ''2024-07-01 12:00:00''\<rparr>"


text \<open>
  A service that answers every request with the same complete row (and with an \<^verbatim>\<open>ops\<close>
  column of its own, which is not the sum of the two rates), and one that answers every
  request with a row of two columns only.
\<close>

definition full_row :: "(string \<times> cell) list" where
  "full_row =
     [(''ba'', CFloat 0.25), (''slg'', CFloat 0.5), (''obp'', CFloat 0.35),
      (''ops'', CFloat 9.999), (''hrs'', CInt 3), (''singles'', CInt 3), (''doubles'', CInt 1),
      (''triples'', CInt 0), (''so'', CInt 6), (''bb'', CInt 2), (''abs'', CInt 20),
      (''pa'', CInt 22), (''hits'', CInt 5)]"

definition sparse_row :: "(string \<times> cell) list" where
  "sparse_row = [(''abs'', CInt 12), (''hrs'', CInt 1)]"

definition answer_row :: "(string \<times> cell) list \<Rightarrow> response" where
  "answer_row r = \<lparr>status_code = 200, read_csv = Some [r]\<rparr>"

definition steady :: env where
  "steady =
     \<lparr>lookup_player = (\<lambda>n. []),
      requests_get = (\<lambda>u. Some (answer_row full_row)),
      now = ''2024-07-01 12:00:00''\<rparr>"





text \<open>
  Services that answer some requests with a row and all others with status 404. A row
  here has a batting average and at-bats of its own; \<open>sparse_row\<close> above has no
  \<^verbatim>\<open>ba\<close> column at all.
\<close>

definition rate_row :: "rat \<Rightarrow> int \<Rightarrow> (string \<times> cell) list" where
  "rate_row a n =
     [(''ba'', CFloat a), (''slg'', CFloat 0.4), (''obp'', CFloat 0.3), (''hrs'', CInt 1),
      (''abs'', CInt n)]"

definition not_found :: response where
  "not_found = \<lparr>status_code = 404, read_csv = None\<rparr>"

definition answering :: "(string \<times> response) list \<Rightarrow> env" where
  "answering table =
     \<lparr>lookup_player = (\<lambda>n. []),
      requests_get = (\<lambda>u. case map_of table u of None \<Rightarrow> Some not_found | Some r \<Rightarrow> Some r),
      now = ''2024-07-01 12:00:00''\<rparr>"

text \<open>Only the four-seam fastball was seen, seven at-bats in all, all against left-handers.\<close>

definition one_split :: env where
  "one_split =
     answering
       [(combined_url 592450 2024 (by_pitch ''FF''), answer_row (rate_row 0.286 7)),
        (combined_url 592450 2024 (by_hand ''FF'' ''L''), answer_row (rate_row 0.286 7))]"

text \<open>The request for the four-seam fastball overall fails; every other request succeeds.\<close>

definition ff_down :: env where
  "ff_down =
     \<lparr>lookup_player = (\<lambda>n. []),
      requests_get = (\<lambda>u. if u = combined_url 592450 2024 (by_pitch ''FF'')
                            then Some not_found else Some (answer_row full_row)),
      now = ''2024-07-01 12:00:00''\<rparr>"

text \<open>Two breaking pitches against left-handers: .250 in 20 at-bats and .300 in 30.\<close>

definition two_breaking :: env where
  "two_breaking =
     answering
       [(combined_url 592450 2024 (by_pitch ''CU''), answer_row (rate_row 0.25 20)),
        (combined_url 592450 2024 (by_hand ''CU'' ''L''), answer_row (rate_row 0.25 20)),
        (combined_url 592450 2024 (by_pitch ''SL''), answer_row (rate_row 0.3 30)),
        (combined_url 592450 2024 (by_hand ''SL'' ''L''), answer_row (rate_row 0.3 30))]"

text \<open>
  Two fastballs against left-handers, the answers for the first of them lacking the
  \<^verbatim>\<open>ba\<close> column.
\<close>

definition one_unavailable :: env where
  "one_unavailable =
     answering
       [(combined_url 592450 2024 (by_pitch ''FF''), answer_row sparse_row),
        (combined_url 592450 2024 (by_hand ''FF'' ''L''), answer_row sparse_row),
        (combined_url 592450 2024 (by_pitch ''SI''), answer_row (rate_row 0.25 20)),
        (combined_url 592450 2024 (by_hand ''SI'' ''L''), answer_row (rate_row 0.25 20))]"


definition sparse_record :: "string \<Rightarrow> string \<Rightarrow> (string \<times> string) list \<Rightarrow> stats" where
  "sparse_record clock label ps =
     no_stats
       \<lparr>split_name := Some label, params := Some ps,
        avg := Some (Lit ''N/A''), slg := Some (Lit ''N/A''), obp := Some (Lit ''N/A''),
        ops := Some (Lit ''N/A''), homeRuns := Some 1, hits := Some 0,
        strikeOuts := Some 0, baseOnBalls := Some 0,
        atBats := Some 12, plateAppearances := Some 0,
        stats.lastUpdated := Some clock\<rparr>"


text \<open>Three breaking balls against left-handers, whose averages have a mean of more than three decimals.\<close>

definition three_breaking :: env where
  "three_breaking =
     answering
       [(combined_url 592450 2024 (by_pitch ''CU''), answer_row (rate_row 0.25 20)),
        (combined_url 592450 2024 (by_hand ''CU'' ''L''), answer_row (rate_row 0.25 20)),
        (combined_url 592450 2024 (by_pitch ''SL''), answer_row (rate_row 0.25 20)),
        (combined_url 592450 2024 (by_hand ''SL'' ''L''), answer_row (rate_row 0.25 20)),
        (combined_url 592450 2024 (by_pitch ''ST''), answer_row (rate_row 0.251 20)),
        (combined_url 592450 2024 (by_hand ''ST'' ''L''), answer_row (rate_row 0.251 20))]"

text \<open>
  Two fastballs against left-handers: the answers for the first lack the \<^verbatim>\<open>ba\<close> column, the
  second went hitless in twenty at-bats.
\<close>

definition hitless_sinker :: env where
  "hitless_sinker =
     answering
       [(combined_url 592450 2024 (by_pitch ''FF''), answer_row sparse_row),
        (combined_url 592450 2024 (by_hand ''FF'' ''L''), answer_row sparse_row),
        (combined_url 592450 2024 (by_pitch ''SI''), answer_row (rate_row 0 20)),
        (combined_url 592450 2024 (by_hand ''SI'' ''L''), answer_row (rate_row 0 20))]"

section \<open>The fetchers: auxiliary facts\<close>

lemma in_columns_value0: "c \<in> set (columns d) \<longleftrightarrow> value0 d c \<noteq> None"
  by (cases d) (simp_all add: columns_def value0_def map_of_eq_None_iff)















lemma add_whiffs_keeps:
  assumes "add_whiffs d st = Some st'"
  shows "split_name st' = split_name st \<and> avg st' = avg st \<and> slg st' = slg st \<and>
         obp st' = obp st \<and> ops st' = ops st \<and> homeRuns st' = homeRuns st \<and>
         hits st' = hits st \<and> strikeOuts st' = strikeOuts st \<and>
         baseOnBalls st' = baseOnBalls st \<and> atBats st' = atBats st \<and>
         plateAppearances st' = plateAppearances st \<and> stats.lastUpdated st' = stats.lastUpdated st \<and>
         params st' = params st"
  using assms by (auto simp: add_whiffs_def split: if_splits bind_splits)




lemma combined_stats_record:
  assumes "combined_stats clock label ps (Some r) = Some st" "read_csv r = Some d"
  shows "combined_record clock label ps d = Some st"
  using assms
  by (auto simp: combined_stats_def split: option.splits if_splits)










lemma full_row_value0:
  "value0 [full_row] ''ba'' = Some (CFloat 0.25)"
  "value0 [full_row] ''slg'' = Some (CFloat 0.5)"
  "value0 [full_row] ''obp'' = Some (CFloat 0.35)"
  "value0 [full_row] ''hrs'' = Some (CInt 3)"
  "value0 [full_row] ''singles'' = Some (CInt 3)"
  "value0 [full_row] ''doubles'' = Some (CInt 1)"
  "value0 [full_row] ''triples'' = Some (CInt 0)"
  "value0 [full_row] ''so'' = Some (CInt 6)"
  "value0 [full_row] ''bb'' = Some (CInt 2)"
  "value0 [full_row] ''abs'' = Some (CInt 20)"
  "value0 [full_row] ''pa'' = Some (CInt 22)"
  "value0 [full_row] ''hits'' = Some (CInt 5)"
  "value0 [full_row] ''whiffs'' = None"
  "value0 [full_row] ''swings'' = None"
  by (simp_all add: value0_def full_row_def)

lemma sparse_row_value0:
  "value0 [sparse_row] ''ba'' = None"
  "value0 [sparse_row] ''slg'' = None"
  "value0 [sparse_row] ''obp'' = None"
  "value0 [sparse_row] ''hrs'' = Some (CInt 1)"
  "value0 [sparse_row] ''so'' = None"
  "value0 [sparse_row] ''bb'' = None"
  "value0 [sparse_row] ''abs'' = Some (CInt 12)"
  "value0 [sparse_row] ''pa'' = None"
  "value0 [sparse_row] ''hits'' = None"
  "value0 [sparse_row] ''whiffs'' = None"
  "value0 [sparse_row] ''swings'' = None"
  by (simp_all add: value0_def sparse_row_def)

lemma example_rows_not_empty: "\<not> empty_frame [full_row]" "\<not> empty_frame [sparse_row]"
  by (simp_all add: empty_frame_def full_row_def sparse_row_def)


lemma combined_record_full_row:
  "combined_record clock label ps [full_row] =
     Some (no_stats
         \<lparr>split_name := Some label, params := Some ps,
          avg := Some (OfFloat 0.25), slg := Some (OfFloat 0.5), obp := Some (OfFloat 0.35),
          ops := Some (OfFloat 0.85), homeRuns := Some 3, hits := Some 5,
          strikeOuts := Some 6, baseOnBalls := Some 2,
          atBats := Some 20, plateAppearances := Some 22,
          stats.lastUpdated := Some clock\<rparr>)"
  by (simp add: combined_record_def str_or_na_def ops_or_na_def int_or_zero_def add_whiffs_def
      str_col_def float_col_def int_col_def in_columns_value0 full_row_value0)


lemma combined_stats_full_row:
  "combined_stats clock label ps (Some (answer_row full_row)) = combined_record clock label ps [full_row]"
  by (simp add: combined_stats_def answer_row_def example_rows_not_empty
      in_columns_value0 full_row_value0)


section \<open>The rollup: auxiliary facts\<close>

lemma float_sum_numeric:
  assumes "\<forall>d \<in> set ds. summable_rate (f d)"
  shows "float_sum f ds = Inr (sum_list (numeric_of f ds))"
  using assms
proof (induction ds)
  case Nil
  then show ?case by (simp add: numeric_of_def)
next
  case (Cons d ds)
  then have ih: "float_sum f ds = Inr (sum_list (numeric_of f ds))" by simp
  from Cons.prems obtain v where v: "f d = Some v"
    by (cases "f d") (auto simp: summable_rate_def)
  show ?case
  proof (cases "v = Lit ''N/A''")
    case True
    with v ih show ?thesis by (simp add: numeric_of_def)
  next
    case False
    with Cons.prems v obtain a where "float_of_str v = Inr a"
      by (cases "float_of_str v") (auto simp: summable_rate_def)
    with v ih False show ?thesis by (simp add: numeric_of_def)
  qed
qed

lemma int_sum_present:
  assumes "\<forall>d \<in> set ds. f d \<noteq> None"
  shows "int_sum f ds = Inr (sum_list (map (\<lambda>d. case f d of None \<Rightarrow> 0 | Some x \<Rightarrow> x) ds))"
  using assms by (induction ds) auto


lemma round3_near: "\<bar>round3 q - q\<bar> \<le> 1 / 2000"
proof -
  define f where "f = \<lfloor>q * 1000\<rfloor>"
  have lo: "of_int f \<le> q * 1000" and hi: "q * 1000 < of_int f + 1"
    unfolding f_def by linarith+
  have "round3 q = of_int f / 1000 \<and> q * 1000 - of_int f \<le> 1 / 2 \<or>
        round3 q = of_int (f + 1) / 1000 \<and> 1 / 2 \<le> q * 1000 - of_int f"
    unfolding round3_def Let_def f_def [symmetric] by auto
  with lo hi show ?thesis by (auto simp: field_simps abs_if)
qed

lemma round3_down:
  assumes "of_int f \<le> q * 1000" "q * 1000 < of_int f + 1 / 2"
  shows "round3 q = of_int f / 1000"
proof -
  from assms have "\<lfloor>q * 1000\<rfloor> = f" by (intro floor_unique) linarith+
  with assms(2) show ?thesis by (simp add: round3_def Let_def)
qed


section \<open>The expansion: auxiliary facts\<close>

lemma fold_frame:
  assumes "\<And>x st. x \<in> set xs \<Longrightarrow> g (f x st) = g st"
  shows "g (fold f xs st) = g st"
  using assms by (induction xs arbitrary: st) auto

lemma fold_at:
  assumes "distinct xs" "x \<in> set xs"
    and "\<And>y st. y \<in> set xs \<Longrightarrow> y \<noteq> x \<Longrightarrow> g (f y st) = g st"
    and "\<And>st. g (f x st) = V (g st)"
  shows "g (fold f xs st) = V (g st)"
  using assms
proof (induction xs arbitrary: st)
  case Nil
  then show ?case by simp
next
  case (Cons y ys)
  show ?case
  proof (cases "y = x")
    case True
    with Cons.prems(1) have "x \<notin> set ys" by simp
    then have "g (fold f ys (f x st)) = g (f x st)"
      using Cons.prems(3) by (intro fold_frame) auto
    with True Cons.prems(4) show ?thesis by simp
  next
    case False
    with Cons.prems have "x \<in> set ys" "distinct ys" by auto
    then have "g (fold f ys (f y st)) = V (g (f y st))"
      using Cons.prems(3,4) by (intro Cons.IH) auto
    with False Cons.prems(3) [of y st] show ?thesis by simp
  qed
qed

lemma fold_trace:
  assumes "\<And>x st. x \<in> set xs \<Longrightarrow> set (snd (f x st)) = set (snd st) \<union> U x"
  shows "set (snd (fold f xs st)) = set (snd st) \<union> (\<Union>x \<in> set xs. U x)"
  using assms by (induction xs arbitrary: st) auto

subsection \<open>Keys\<close>

lemma pitch_types_length: "p \<in> set pitch_types \<Longrightarrow> length p = 2"
  by (auto simp: pitch_types_def)

lemma pitcher_hands_length: "h \<in> set pitcher_hands \<Longrightarrow> length h = 1"
  by (auto simp: pitcher_hands_def)

lemma distinct_dimensions:
  "distinct pitch_types" "distinct pitcher_hands" "distinct locations"
  by (simp_all add: pitch_types_def pitcher_hands_def locations_def)

lemma key_eq:
  "pitch_key p = pitch_key p' \<longleftrightarrow> p = p'"
  "length p = length p' \<Longrightarrow> pitch_key p \<noteq> hand_key p' h'"
  "length p = length p' \<Longrightarrow> hand_key p' h' \<noteq> pitch_key p"
  "length p = length p' \<Longrightarrow> pitch_key p \<noteq> loc_key p' h' l'"
  "length p = length p' \<Longrightarrow> loc_key p' h' l' \<noteq> pitch_key p"
  "length p = length p' \<Longrightarrow> length h = length h' \<Longrightarrow>
     hand_key p h = hand_key p' h' \<longleftrightarrow> p = p' \<and> h = h'"
  "length p = length p' \<Longrightarrow> length h = length h' \<Longrightarrow> hand_key p h \<noteq> loc_key p' h' l'"
  "length p = length p' \<Longrightarrow> length h = length h' \<Longrightarrow> loc_key p' h' l' \<noteq> hand_key p h"
  "length p = length p' \<Longrightarrow> length h = length h' \<Longrightarrow>
     loc_key p h l = loc_key p' h' l' \<longleftrightarrow> p = p' \<and> h = h' \<and> l = l'"
  by (auto simp: pitch_key_def hand_key_def loc_key_def)

lemma group_key_neq:
  "group_key g h \<noteq> pitch_key p" "group_key g h \<noteq> hand_key p h'"
  "group_key g h \<noteq> loc_key p h' l" "hand_key p h' \<noteq> group_key g h"
  by (simp_all add: group_key_def pitch_key_def hand_key_def loc_key_def)


subsection \<open>The expansion, level by level\<close>

lemma gcsd:
  "get_combined_split_data e pid yr ps tr = (fetched e pid yr ps, tr @ [combined_url pid yr ps])"
  by (simp add: fetched_def get_combined_split_data_def Let_def)

lemma accepted_fetched:
  "accepted e pid yr ps \<Longrightarrow> Some (the (fetched e pid yr ps)) = fetched e pid yr ps"
  by (cases "fetched e pid yr ps") (simp_all add: accepted_def)

lemma location_step_eq:
  "location_step e pid yr p h l st =
     (if accepted e pid yr (by_location p h l)
      then AList.update (loc_key p h l) (the (fetched e pid yr (by_location p h l))) (fst st)
      else fst st,
      snd st @ [combined_url pid yr (by_location p h l)])"
  by (cases "fetched e pid yr (by_location p h l)")
    (simp_all add: location_step_def gcsd accepted_def by_location_def)

lemma hand_step_eq:
  "hand_step e pid yr p h st =
     (if accepted e pid yr (by_hand p h)
      then fold (location_step e pid yr p h) locations
             (AList.update (hand_key p h) (the (fetched e pid yr (by_hand p h))) (fst st),
              snd st @ [combined_url pid yr (by_hand p h)])
      else (fst st, snd st @ [combined_url pid yr (by_hand p h)]))"
  by (cases "fetched e pid yr (by_hand p h)")
    (simp_all add: hand_step_def gcsd accepted_def by_hand_def)

lemma pitch_step_eq:
  "pitch_step e pid yr p st =
     (if accepted e pid yr (by_pitch p)
      then fold (hand_step e pid yr p) pitcher_hands
             (AList.update (pitch_key p) (the (fetched e pid yr (by_pitch p))) (fst st),
              snd st @ [combined_url pid yr (by_pitch p)])
      else (fst st, snd st @ [combined_url pid yr (by_pitch p)]))"
  by (cases "fetched e pid yr (by_pitch p)")
    (simp_all add: pitch_step_def gcsd accepted_def by_pitch_def)

lemma location_step_map:
  "map_of (fst (location_step e pid yr p h l st)) k =
     (if k = loc_key p h l \<and> accepted e pid yr (by_location p h l)
      then fetched e pid yr (by_location p h l) else map_of (fst st) k)"
  by (simp add: location_step_eq update_conv' accepted_fetched)

lemma locations_frame:
  assumes "\<And>l. l \<in> set ls \<Longrightarrow> k \<noteq> loc_key p h l"
  shows "map_of (fst (fold (location_step e pid yr p h) ls st)) k = map_of (fst st) k"
  using assms
  by (intro fold_frame [where g = "\<lambda>st. map_of (fst st) k"]) (simp add: location_step_map)

lemma locations_at:
  assumes "l \<in> set locations"
  shows "map_of (fst (fold (location_step e pid yr p h) locations st)) (loc_key p h l) =
     (if accepted e pid yr (by_location p h l) then fetched e pid yr (by_location p h l)
      else map_of (fst st) (loc_key p h l))"
  by (rule fold_at [where g = "\<lambda>st. map_of (fst st) (loc_key p h l)"
        and V = "\<lambda>old. if accepted e pid yr (by_location p h l)
                        then fetched e pid yr (by_location p h l) else old",
        OF distinct_dimensions(3) assms])
    (simp_all add: location_step_map key_eq)

lemma hand_step_frame:
  assumes "k \<noteq> hand_key p h" "\<And>l. l \<in> set locations \<Longrightarrow> k \<noteq> loc_key p h l"
  shows "map_of (fst (hand_step e pid yr p h st)) k = map_of (fst st) k"
  using assms by (simp add: hand_step_eq locations_frame update_conv')

lemma hand_step_at:
  "map_of (fst (hand_step e pid yr p h st)) (hand_key p h) =
     (if accepted e pid yr (by_hand p h) then fetched e pid yr (by_hand p h)
      else map_of (fst st) (hand_key p h))"
  by (simp add: hand_step_eq locations_frame update_conv' key_eq accepted_fetched)

lemma hand_step_location:
  assumes "l \<in> set locations"
  shows "map_of (fst (hand_step e pid yr p h st)) (loc_key p h l) =
     (if accepted e pid yr (by_hand p h) \<and> accepted e pid yr (by_location p h l)
      then fetched e pid yr (by_location p h l) else map_of (fst st) (loc_key p h l))"
  using assms by (simp add: hand_step_eq locations_at update_conv' key_eq)

lemma hands_frame:
  assumes "\<And>h. h \<in> set hs \<Longrightarrow> k \<noteq> hand_key p h"
    "\<And>h l. h \<in> set hs \<Longrightarrow> l \<in> set locations \<Longrightarrow> k \<noteq> loc_key p h l"
  shows "map_of (fst (fold (hand_step e pid yr p) hs st)) k = map_of (fst st) k"
  using assms
  by (intro fold_frame [where g = "\<lambda>st. map_of (fst st) k"]) (simp add: hand_step_frame)

lemma hands_at:
  assumes "h \<in> set pitcher_hands"
  shows "map_of (fst (fold (hand_step e pid yr p) pitcher_hands st)) (hand_key p h) =
     (if accepted e pid yr (by_hand p h) then fetched e pid yr (by_hand p h)
      else map_of (fst st) (hand_key p h))"
proof (rule fold_at [where g = "\<lambda>st. map_of (fst st) (hand_key p h)"
        and V = "\<lambda>old. if accepted e pid yr (by_hand p h)
                        then fetched e pid yr (by_hand p h) else old",
        OF distinct_dimensions(2) assms])
  fix y st assume "y \<in> set pitcher_hands" "y \<noteq> h"
  with assms have "length h = length y" by (simp add: pitcher_hands_length)
  with \<open>y \<noteq> h\<close> show "map_of (fst (hand_step e pid yr p y st)) (hand_key p h)
      = map_of (fst st) (hand_key p h)"
    by (intro hand_step_frame) (auto simp: key_eq)
next
  fix st show "map_of (fst (hand_step e pid yr p h st)) (hand_key p h) =
      (if accepted e pid yr (by_hand p h) then fetched e pid yr (by_hand p h)
       else map_of (fst st) (hand_key p h))"
    by (rule hand_step_at)
qed

lemma hands_location:
  assumes "h \<in> set pitcher_hands" "l \<in> set locations"
  shows "map_of (fst (fold (hand_step e pid yr p) pitcher_hands st)) (loc_key p h l) =
     (if accepted e pid yr (by_hand p h) \<and> accepted e pid yr (by_location p h l)
      then fetched e pid yr (by_location p h l) else map_of (fst st) (loc_key p h l))"
proof (rule fold_at [where g = "\<lambda>st. map_of (fst st) (loc_key p h l)"
        and V = "\<lambda>old. if accepted e pid yr (by_hand p h) \<and> accepted e pid yr (by_location p h l)
                        then fetched e pid yr (by_location p h l) else old",
        OF distinct_dimensions(2) assms(1)])
  fix y st assume "y \<in> set pitcher_hands" "y \<noteq> h"
  with assms have "length h = length y" by (simp add: pitcher_hands_length)
  with \<open>y \<noteq> h\<close> show "map_of (fst (hand_step e pid yr p y st)) (loc_key p h l)
      = map_of (fst st) (loc_key p h l)"
    by (intro hand_step_frame) (auto simp: key_eq)
next
  fix st show "map_of (fst (hand_step e pid yr p h st)) (loc_key p h l) =
      (if accepted e pid yr (by_hand p h) \<and> accepted e pid yr (by_location p h l)
       then fetched e pid yr (by_location p h l) else map_of (fst st) (loc_key p h l))"
    by (rule hand_step_location [OF assms(2)])
qed

lemma pitch_step_frame:
  assumes "k \<noteq> pitch_key p" "\<And>h. h \<in> set pitcher_hands \<Longrightarrow> k \<noteq> hand_key p h"
    "\<And>h l. h \<in> set pitcher_hands \<Longrightarrow> l \<in> set locations \<Longrightarrow> k \<noteq> loc_key p h l"
  shows "map_of (fst (pitch_step e pid yr p st)) k = map_of (fst st) k"
  using assms by (simp add: pitch_step_eq hands_frame update_conv')

lemma pitch_step_at:
  "map_of (fst (pitch_step e pid yr p st)) (pitch_key p) =
     (if accepted e pid yr (by_pitch p) then fetched e pid yr (by_pitch p)
      else map_of (fst st) (pitch_key p))"
  by (simp add: pitch_step_eq hands_frame update_conv' key_eq accepted_fetched)

lemma pitch_step_hand:
  assumes "h \<in> set pitcher_hands"
  shows "map_of (fst (pitch_step e pid yr p st)) (hand_key p h) =
     (if accepted e pid yr (by_pitch p) \<and> accepted e pid yr (by_hand p h)
      then fetched e pid yr (by_hand p h) else map_of (fst st) (hand_key p h))"
  using assms by (simp add: pitch_step_eq hands_at update_conv' key_eq)

lemma pitch_step_location:
  assumes "h \<in> set pitcher_hands" "l \<in> set locations"
  shows "map_of (fst (pitch_step e pid yr p st)) (loc_key p h l) =
     (if accepted e pid yr (by_pitch p) \<and> accepted e pid yr (by_hand p h) \<and>
         accepted e pid yr (by_location p h l)
      then fetched e pid yr (by_location p h l) else map_of (fst st) (loc_key p h l))"
  using assms by (simp add: pitch_step_eq hands_location update_conv' key_eq)

lemma other_pitch_frame:
  assumes "y \<in> set pitch_types" "p \<in> set pitch_types" "y \<noteq> p"
  shows "map_of (fst (pitch_step e pid yr y st)) (pitch_key p) = map_of (fst st) (pitch_key p)"
    and "h \<in> set pitcher_hands \<Longrightarrow>
      map_of (fst (pitch_step e pid yr y st)) (hand_key p h) = map_of (fst st) (hand_key p h)"
    and "h \<in> set pitcher_hands \<Longrightarrow>
      map_of (fst (pitch_step e pid yr y st)) (loc_key p h l) = map_of (fst st) (loc_key p h l)"
proof -
  from assms have len: "length p = length y" by (simp add: pitch_types_length)
  from len assms(3) show
    "map_of (fst (pitch_step e pid yr y st)) (pitch_key p) = map_of (fst st) (pitch_key p)"
    by (intro pitch_step_frame) (auto simp: key_eq)
  assume h: "h \<in> set pitcher_hands"
  have hl: "length h = length h'" if "h' \<in> set pitcher_hands" for h'
    using that h by (simp add: pitcher_hands_length)
  from len assms(3) hl show
    "map_of (fst (pitch_step e pid yr y st)) (hand_key p h) = map_of (fst st) (hand_key p h)"
    by (intro pitch_step_frame) (auto simp: key_eq)
  from len assms(3) hl show
    "map_of (fst (pitch_step e pid yr y st)) (loc_key p h l) = map_of (fst st) (loc_key p h l)"
    by (intro pitch_step_frame) (auto simp: key_eq)
qed

text \<open>What the expansion stores under the key of each dimension.\<close>

lemma pitch_loop_pitch:
  assumes "p \<in> set pitch_types"
  shows "map_of (fst (pitch_loop e pid yr tr)) (pitch_key p) =
     (if accepted e pid yr (by_pitch p) then fetched e pid yr (by_pitch p) else None)"
proof -
  have "map_of (fst (fold (pitch_step e pid yr) pitch_types ([], tr))) (pitch_key p) =
     (if accepted e pid yr (by_pitch p) then fetched e pid yr (by_pitch p)
      else map_of (fst ([], tr)) (pitch_key p))"
  proof (rule fold_at [where g = "\<lambda>st. map_of (fst st) (pitch_key p)"
        and V = "\<lambda>old. if accepted e pid yr (by_pitch p)
                        then fetched e pid yr (by_pitch p) else old",
        OF distinct_dimensions(1) assms])
    fix y st assume "y \<in> set pitch_types" "y \<noteq> p"
    then show "map_of (fst (pitch_step e pid yr y st)) (pitch_key p) = map_of (fst st) (pitch_key p)"
      using assms by (intro other_pitch_frame(1))
  next
    fix st show "map_of (fst (pitch_step e pid yr p st)) (pitch_key p) =
      (if accepted e pid yr (by_pitch p) then fetched e pid yr (by_pitch p)
       else map_of (fst st) (pitch_key p))"
      by (rule pitch_step_at)
  qed
  then show ?thesis by (simp add: pitch_loop_def)
qed

lemma pitch_loop_hand:
  assumes "p \<in> set pitch_types" "h \<in> set pitcher_hands"
  shows "map_of (fst (pitch_loop e pid yr tr)) (hand_key p h) =
     (if accepted e pid yr (by_pitch p) \<and> accepted e pid yr (by_hand p h)
      then fetched e pid yr (by_hand p h) else None)"
proof -
  have "map_of (fst (fold (pitch_step e pid yr) pitch_types ([], tr))) (hand_key p h) =
     (if accepted e pid yr (by_pitch p) \<and> accepted e pid yr (by_hand p h)
      then fetched e pid yr (by_hand p h) else map_of (fst ([], tr)) (hand_key p h))"
  proof (rule fold_at [where g = "\<lambda>st. map_of (fst st) (hand_key p h)"
        and V = "\<lambda>old. if accepted e pid yr (by_pitch p) \<and> accepted e pid yr (by_hand p h)
                        then fetched e pid yr (by_hand p h) else old",
        OF distinct_dimensions(1) assms(1)])
    fix y st assume "y \<in> set pitch_types" "y \<noteq> p"
    then show "map_of (fst (pitch_step e pid yr y st)) (hand_key p h) = map_of (fst st) (hand_key p h)"
      using assms by (intro other_pitch_frame(2))
  next
    fix st show "map_of (fst (pitch_step e pid yr p st)) (hand_key p h) =
      (if accepted e pid yr (by_pitch p) \<and> accepted e pid yr (by_hand p h)
       then fetched e pid yr (by_hand p h) else map_of (fst st) (hand_key p h))"
      by (rule pitch_step_hand [OF assms(2)])
  qed
  then show ?thesis by (simp add: pitch_loop_def)
qed

lemma pitch_loop_location:
  assumes "p \<in> set pitch_types" "h \<in> set pitcher_hands" "l \<in> set locations"
  shows "map_of (fst (pitch_loop e pid yr tr)) (loc_key p h l) =
     (if accepted e pid yr (by_pitch p) \<and> accepted e pid yr (by_hand p h) \<and>
         accepted e pid yr (by_location p h l)
      then fetched e pid yr (by_location p h l) else None)"
proof -
  have "map_of (fst (fold (pitch_step e pid yr) pitch_types ([], tr))) (loc_key p h l) =
     (if accepted e pid yr (by_pitch p) \<and> accepted e pid yr (by_hand p h) \<and>
         accepted e pid yr (by_location p h l)
      then fetched e pid yr (by_location p h l) else map_of (fst ([], tr)) (loc_key p h l))"
  proof (rule fold_at [where g = "\<lambda>st. map_of (fst st) (loc_key p h l)"
        and V = "\<lambda>old. if accepted e pid yr (by_pitch p) \<and> accepted e pid yr (by_hand p h) \<and>
                           accepted e pid yr (by_location p h l)
                        then fetched e pid yr (by_location p h l) else old",
        OF distinct_dimensions(1) assms(1)])
    fix y st assume "y \<in> set pitch_types" "y \<noteq> p"
    then show "map_of (fst (pitch_step e pid yr y st)) (loc_key p h l) = map_of (fst st) (loc_key p h l)"
      using assms by (intro other_pitch_frame(3))
  next
    fix st show "map_of (fst (pitch_step e pid yr p st)) (loc_key p h l) =
      (if accepted e pid yr (by_pitch p) \<and> accepted e pid yr (by_hand p h) \<and>
          accepted e pid yr (by_location p h l)
       then fetched e pid yr (by_location p h l) else map_of (fst st) (loc_key p h l))"
      by (rule pitch_step_location [OF assms(2,3)])
  qed
  then show ?thesis by (simp add: pitch_loop_def)
qed


subsection \<open>What is stored comes from an accepted fetch\<close>

lemma fold_invariant:
  assumes "\<And>x st. x \<in> set xs \<Longrightarrow> I st \<Longrightarrow> I (f x st)" "I st"
  shows "I (fold f xs st)"
  using assms by (induction xs arbitrary: st) auto

lemma set_update_subset: "set (AList.update k v al) \<subseteq> insert (k, v) (set al)"
  by (induction al) auto

lemma stored_ok_update:
  assumes "stored_ok e pid yr st" "accepted e pid yr ps" "startswith k ''pitch_''"
  shows "stored_ok e pid yr (AList.update k (the (fetched e pid yr ps)) (fst st), tr)"
proof -
  from assms(2) have "fetched e pid yr ps = Some (the (fetched e pid yr ps))"
    by (simp add: accepted_fetched)
  with assms show ?thesis
    using set_update_subset [of k "the (fetched e pid yr ps)" "fst st"]
    unfolding stored_ok_def by fastforce
qed

lemma stored_ok_trace: "stored_ok e pid yr st \<Longrightarrow> stored_ok e pid yr (fst st, tr')"
  by (simp add: stored_ok_def)

lemma key_prefix:
  "startswith (pitch_key p) ''pitch_''" "startswith (hand_key p h) ''pitch_''"
  "startswith (loc_key p h l) ''pitch_''" "\<not> startswith (group_key g h) ''pitch_''"
  by (simp_all add: startswith_def pitch_key_def hand_key_def loc_key_def group_key_def)

lemma location_step_ok:
  "stored_ok e pid yr st \<Longrightarrow> stored_ok e pid yr (location_step e pid yr p h l st)"
  by (simp add: location_step_eq key_prefix stored_ok_update stored_ok_trace)

lemma hand_step_ok:
  assumes "stored_ok e pid yr st"
  shows "stored_ok e pid yr (hand_step e pid yr p h st)"
proof (cases "accepted e pid yr (by_hand p h)")
  case True
  have "stored_ok e pid yr (fold (location_step e pid yr p h) locations
          (AList.update (hand_key p h) (the (fetched e pid yr (by_hand p h))) (fst st),
           snd st @ [combined_url pid yr (by_hand p h)]))"
    by (intro fold_invariant [where I = "stored_ok e pid yr"] location_step_ok
        stored_ok_update assms True key_prefix)
  with True show ?thesis by (simp add: hand_step_eq)
next
  case False
  with assms show ?thesis by (simp add: hand_step_eq stored_ok_trace)
qed

lemma pitch_step_ok:
  assumes "stored_ok e pid yr st"
  shows "stored_ok e pid yr (pitch_step e pid yr p st)"
proof (cases "accepted e pid yr (by_pitch p)")
  case True
  have "stored_ok e pid yr (fold (hand_step e pid yr p) pitcher_hands
          (AList.update (pitch_key p) (the (fetched e pid yr (by_pitch p))) (fst st),
           snd st @ [combined_url pid yr (by_pitch p)]))"
    by (intro fold_invariant [where I = "stored_ok e pid yr"] hand_step_ok
        stored_ok_update assms True key_prefix)
  with True show ?thesis by (simp add: pitch_step_eq)
next
  case False
  with assms show ?thesis by (simp add: pitch_step_eq stored_ok_trace)
qed

lemma pitch_loop_ok: "stored_ok e pid yr (pitch_loop e pid yr tr)"
  unfolding pitch_loop_def
  by (intro fold_invariant [where I = "stored_ok e pid yr"] pitch_step_ok)
    (simp_all add: stored_ok_def)

lemma pitch_loop_stored:
  assumes "(k, d) \<in> set (fst (pitch_loop e pid yr tr))"
  shows "startswith k ''pitch_''" "5 \<le> at_bats d"
    "\<exists>ps. accepted e pid yr ps \<and> fetched e pid yr ps = Some d"
  using pitch_loop_ok [of e pid yr tr] assms
  by (auto simp: stored_ok_def accepted_def)


section \<open>The group loop: auxiliary facts\<close>

lemma fold_err_append:
  "fold_err f (xs @ ys) s =
     (case fold_err f xs s of Inl err \<Rightarrow> Inl err | Inr s' \<Rightarrow> fold_err f ys s')"
  by (induction xs arbitrary: s) (auto split: sum.splits)

lemma fold_err_map: "fold_err f (map g xs) s = fold_err (\<lambda>x. f (g x)) xs s"
  by (induction xs arbitrary: s) (auto split: sum.splits)

lemma fold_err_product:
  "fold_err (\<lambda>g. fold_err (f g) hs) gs s = fold_err (\<lambda>(g, h). f g h) (List.product gs hs) s"
  by (induction gs arbitrary: s) (auto simp: fold_err_append fold_err_map split: sum.splits)

lemma group_loop_flat:
  "group_loop clock sp =
     fold_err (\<lambda>(g, h). group_step clock g h) (List.product pitch_groups pitcher_hands) sp"
  by (simp add: group_loop_def fold_err_product)

lemma hand_data_of_cong:
  assumes "\<And>p. map_of sp' (hand_key p h) = map_of sp (hand_key p h)"
  shows "hand_data_of sp' ps h = hand_data_of sp ps h"
  using assms by (simp add: hand_data_of_def)

lemma group_step_map:
  assumes "group_step clock g h sp = Inr sp'"
  shows "\<exists>x. group_summary clock (fst g) h (hand_data_of sp (snd g) h) = Inr x \<and>
           map_of sp' = (case x of None \<Rightarrow> map_of sp
                         | Some r \<Rightarrow> (map_of sp)(group_key (fst g) h \<mapsto> r))"
  using assms
  by (auto simp: group_step_def update_conv' split: sum.splits option.splits)

lemma group_step_frame:
  assumes "group_step clock g h sp = Inr sp'" "k \<noteq> group_key (fst g) h"
  shows "map_of sp' k = map_of sp k"
  using group_step_map [OF assms(1)] assms(2) by (auto split: option.splits)

lemma group_step_hand_data:
  assumes "group_step clock g h sp = Inr sp'"
  shows "hand_data_of sp' ps h' = hand_data_of sp ps h'"
  by (rule hand_data_of_cong) (rule group_step_frame [OF assms], rule group_key_neq)

lemma group_steps:
  assumes "fold_err (\<lambda>(g, h). group_step clock g h) ds sp = Inr sp'"
    and "distinct (map (\<lambda>(g, h). group_key (fst g) h) ds)"
  shows "(\<forall>k. (\<forall>(g, h) \<in> set ds. k \<noteq> group_key (fst g) h) \<longrightarrow> map_of sp' k = map_of sp k) \<and>
         (\<forall>(g, h) \<in> set ds.
            \<exists>x. group_summary clock (fst g) h (hand_data_of sp (snd g) h) = Inr x \<and>
              map_of sp' (group_key (fst g) h) =
                (case x of None \<Rightarrow> map_of sp (group_key (fst g) h) | Some r \<Rightarrow> Some r))"
  using assms
proof (induction ds arbitrary: sp)
  case Nil
  then show ?case by simp
next
  case (Cons d ds)
  obtain g h where d: "d = (g, h)" by (cases d)
  from Cons.prems(1) d obtain sp1 where
    s1: "group_step clock g h sp = Inr sp1"
    and rest: "fold_err (\<lambda>(g, h). group_step clock g h) ds sp1 = Inr sp'"
    by (auto split: sum.splits)
  from Cons.prems(2) d have dist: "distinct (map (\<lambda>(g, h). group_key (fst g) h) ds)"
    and notin: "group_key (fst g) h \<notin> (\<lambda>(g, h). group_key (fst g) h) ` set ds"
    by auto
  from notin have fresh: "\<forall>(g', h') \<in> set ds. group_key (fst g) h \<noteq> group_key (fst g') h'"
    by force
  note ih = Cons.IH [OF rest dist]
  from group_step_map [OF s1] obtain x where
    x: "group_summary clock (fst g) h (hand_data_of sp (snd g) h) = Inr x"
    and m1: "map_of sp1 = (case x of None \<Rightarrow> map_of sp
                           | Some r \<Rightarrow> (map_of sp)(group_key (fst g) h \<mapsto> r))"
    by blast
  have frame: "map_of sp' k = map_of sp k"
    if "\<forall>(g, h) \<in> set (d # ds). k \<noteq> group_key (fst g) h" for k
  proof -
    from that d have "k \<noteq> group_key (fst g) h"
      "\<forall>(g, h) \<in> set ds. k \<noteq> group_key (fst g) h" by auto
    with ih group_step_frame [OF s1] show ?thesis by simp
  qed
  have head: "map_of sp' (group_key (fst g) h) =
      (case x of None \<Rightarrow> map_of sp (group_key (fst g) h) | Some r \<Rightarrow> Some r)"
  proof -
    from ih fresh have "map_of sp' (group_key (fst g) h) = map_of sp1 (group_key (fst g) h)"
      by blast
    with m1 show ?thesis by (simp split: option.splits)
  qed
  have tail: "\<exists>x. group_summary clock (fst g') h' (hand_data_of sp (snd g') h') = Inr x \<and>
      map_of sp' (group_key (fst g') h') =
        (case x of None \<Rightarrow> map_of sp (group_key (fst g') h') | Some r \<Rightarrow> Some r)"
    if "(g', h') \<in> set ds" for g' h'
  proof -
    from ih that obtain y where
      y: "group_summary clock (fst g') h' (hand_data_of sp1 (snd g') h') = Inr y"
      "map_of sp' (group_key (fst g') h') =
        (case y of None \<Rightarrow> map_of sp1 (group_key (fst g') h') | Some r \<Rightarrow> Some r)"
      by blast
    from fresh that have "group_key (fst g') h' \<noteq> group_key (fst g) h" by fastforce
    then have "map_of sp1 (group_key (fst g') h') = map_of sp (group_key (fst g') h')"
      by (rule group_step_frame [OF s1])
    with y group_step_hand_data [OF s1] show ?thesis by (auto split: option.splits)
  qed
  from frame head tail x d show ?case by auto
qed

lemma group_keys_distinct:
  "distinct (map (\<lambda>(g, h). group_key (fst g) h) (List.product pitch_groups pitcher_hands))"
  by (simp add: pitch_groups_def pitcher_hands_def group_key_def)

lemma group_loop_frame:
  assumes "group_loop clock sp = Inr sp'" "\<And>g h. k \<noteq> group_key g h"
  shows "map_of sp' k = map_of sp k"
  using group_steps [OF assms(1) [unfolded group_loop_flat] group_keys_distinct] assms(2)
  by auto



subsection \<open>What the rollups hold\<close>

lemma int_sum_Inr:
  assumes "int_sum f ds = Inr s"
  shows "s = sum_list (map (\<lambda>d. case f d of None \<Rightarrow> 0 | Some x \<Rightarrow> x) ds)"
  using assms by (induction ds arbitrary: s) (auto split: option.splits sum.splits)

lemma group_summary_Some:
  assumes "group_summary clock g h cs = Inr (Some r)"
  shows "cs \<noteq> []" "0 < sum_list (map at_bats cs)"
    "atBats r = Some (sum_list (map at_bats cs))"
    "homeRuns r = Some (sum_list (map home_runs cs))"
    "\<exists>a. float_sum stats.avg cs = Inr a \<and>
       stats.avg r = Some (OfFloat (round3 (a / of_nat (length cs))))"
    "rollable r"
proof -
  from assms have ne: "cs \<noteq> []" by (auto simp: group_summary_def split: if_splits)
  from assms ne obtain a b n m where
    s: "float_sum stats.avg cs = Inr a" "float_sum stats.ops cs = Inr b"
       "int_sum atBats cs = Inr n" "int_sum homeRuns cs = Inr m"
    by (auto simp: group_summary_def split: sum.splits)
  from int_sum_Inr [OF s(3)] int_sum_Inr [OF s(4)]
  have n: "n = sum_list (map at_bats cs)" and m: "m = sum_list (map home_runs cs)"
    by (simp_all add: at_bats_def [abs_def] home_runs_def [abs_def])
  from assms ne s have pos: "0 < n" and
    r: "r = no_stats
         \<lparr>split_name := Some (g @ '' pitches vs '' @ h @ ''HP''),
          avg := Some (OfFloat (round3 (a / of_nat (length cs)))),
          ops := Some (OfFloat (round3 (b / of_nat (length cs)))),
          atBats := Some n, homeRuns := Some m, stats.lastUpdated := Some clock\<rparr>"
    by (auto simp: group_summary_def split: if_splits)
  show "cs \<noteq> []" by (rule ne)
  from pos n show "0 < sum_list (map at_bats cs)" by simp
  from r n show "atBats r = Some (sum_list (map at_bats cs))" by simp
  from r m show "homeRuns r = Some (sum_list (map home_runs cs))" by simp
  from r s(1) show "\<exists>a. float_sum stats.avg cs = Inr a \<and>
       stats.avg r = Some (OfFloat (round3 (a / of_nat (length cs))))" by simp
  from r show "rollable r" by (simp add: rollable_def summable_rate_def)
qed

lemma hand_data_of_stored:
  assumes "d \<in> set (hand_data_of sp ps h)"
  shows "\<exists>k. (k, d) \<in> set sp"
proof -
  from assms obtain p where "map_of sp (hand_key p h) = Some d"
    by (auto simp: hand_data_of_def split: option.splits)
  then show ?thesis by (blast dest: map_of_SomeD)
qed



lemma fold_err_total:
  assumes "I s" "\<And>x s. x \<in> set xs \<Longrightarrow> I s \<Longrightarrow> \<exists>s'. f x s = Inr s' \<and> I s'"
  shows "\<exists>s'. fold_err f xs s = Inr s' \<and> I s'"
  using assms
proof (induction xs arbitrary: s)
  case Nil
  then show ?case by simp
next
  case (Cons x xs)
  from Cons.prems obtain s1 where s1: "f x s = Inr s1" "I s1" by fastforce
  from Cons.IH [OF s1(2)] Cons.prems(2) obtain s' where "fold_err f xs s1 = Inr s'" "I s'"
    by fastforce
  with s1 show ?case by simp
qed




subsection \<open>The rollups do not raise on numeric data\<close>

lemma summable_py_str: "numeric x \<Longrightarrow> summable_rate (Some (py_str x))"
  by (cases x) (simp_all add: summable_rate_def)

lemma str_or_na_summable:
  assumes "\<forall>c x. value0 data c = Some x \<longrightarrow> numeric x" "str_or_na data c = Some v"
  shows "summable_rate (Some v)"
proof (cases "c \<in> set (columns data)")
  case True
  with assms(2) obtain x where "value0 data c = Some x" "v = py_str x"
    by (auto simp: str_or_na_def str_col_def)
  with assms(1) show ?thesis by (auto intro: summable_py_str)
next
  case False
  with assms(2) show ?thesis by (simp add: str_or_na_def summable_rate_def)
qed

lemma ops_or_na_summable:
  assumes "ops_or_na data = Some v"
  shows "summable_rate (Some v)"
  using assms by (auto simp: ops_or_na_def summable_rate_def split: if_splits bind_splits)

lemma combined_record_rollable:
  assumes "combined_record clock label ps data = Some d"
    and num: "\<forall>c x. value0 data c = Some x \<longrightarrow> numeric x"
  shows "rollable d"
proof -
  from assms(1) obtain ba ss so os hrs hh abv pa k bb where
    r: "str_or_na data ''ba'' = Some ba" "ops_or_na data = Some os"
    and w: "add_whiffs data (no_stats
         \<lparr>split_name := Some label, params := Some ps,
          avg := Some ba, slg := Some ss, obp := Some so,
          ops := Some os, homeRuns := Some hrs, hits := Some hh,
          strikeOuts := Some k, baseOnBalls := Some bb,
          atBats := Some abv, plateAppearances := Some pa,
          stats.lastUpdated := Some clock\<rparr>) = Some d"
    by (auto simp: combined_record_def split: bind_splits)
  from add_whiffs_keeps [OF w] have f: "stats.avg d = Some ba" "stats.ops d = Some os"
    "atBats d = Some abv" "homeRuns d = Some hrs"
    by simp_all
  from str_or_na_summable [OF num r(1)] ops_or_na_summable [OF r(2)] f show ?thesis
    by (simp add: rollable_def)
qed

lemma fetched_rollable:
  assumes "numeric_remote e" "fetched e pid yr ps = Some d"
  shows "rollable d"
proof -
  from assms(2) obtain r where r: "requests_get e (combined_url pid yr ps) = Some r"
    and c: "combined_stats (now e) (combined_split_name ps) ps (Some r) = Some d"
    by (cases "requests_get e (combined_url pid yr ps)")
      (auto simp: fetched_def get_combined_split_data_def combined_stats_def)
  from c obtain data where data: "read_csv r = Some data"
    by (cases "read_csv r") (auto simp: combined_stats_def split: if_splits)
  from combined_stats_record [OF c data] assms(1) r data show ?thesis
    by (intro combined_record_rollable) (auto simp: numeric_remote_def)
qed

lemma group_summary_total:
  assumes "\<forall>d \<in> set cs. rollable d"
  shows "\<exists>x. group_summary clock g h cs = Inr x"
proof -
  from assms have a: "float_sum stats.avg cs = Inr (sum_list (numeric_of stats.avg cs))"
    by (intro float_sum_numeric) (simp add: rollable_def)
  from assms have b: "float_sum stats.ops cs = Inr (sum_list (numeric_of stats.ops cs))"
    by (intro float_sum_numeric) (simp add: rollable_def)
  from assms have c: "\<exists>n. int_sum atBats cs = Inr n" "\<exists>n. int_sum homeRuns cs = Inr n"
    using int_sum_present [of cs atBats] int_sum_present [of cs homeRuns]
    by (simp_all add: rollable_def)
  from a b c show ?thesis by (auto simp: group_summary_def)
qed

lemma group_step_total:
  assumes "\<forall>(k, d) \<in> set sp. rollable d"
  shows "\<exists>sp'. group_step clock g h sp = Inr sp' \<and> (\<forall>(k, d) \<in> set sp'. rollable d)"
proof -
  have "\<forall>d \<in> set (hand_data_of sp (snd g) h). rollable d"
    using assms hand_data_of_stored by fastforce
  from group_summary_total [OF this] obtain x where
    x: "group_summary clock (fst g) h (hand_data_of sp (snd g) h) = Inr x" by blast
  show ?thesis
  proof (cases x)
    case None
    with x assms show ?thesis by (simp add: group_step_def)
  next
    case (Some r)
    with x group_summary_Some(6) have "rollable r" by blast
    with assms set_update_subset [of "group_key (fst g) h" r sp]
    have "\<forall>(k, d) \<in> set (AList.update (group_key (fst g) h) r sp). rollable d" by auto
    with x Some show ?thesis by (simp add: group_step_def)
  qed
qed

lemma group_loop_total:
  assumes "\<forall>(k, d) \<in> set sp. rollable d"
  shows "\<exists>sp'. group_loop clock sp = Inr sp'"
proof -
  have "\<exists>sp'. fold_err (\<lambda>(g, h). group_step clock g h)
           (List.product pitch_groups pitcher_hands) sp = Inr sp' \<and>
         (\<forall>(k, d) \<in> set sp'. rollable d)"
    by (rule fold_err_total [where I = "\<lambda>sp. \<forall>(k, d) \<in> set sp. rollable d", OF assms])
      (auto intro: group_step_total)
  then show ?thesis by (auto simp: group_loop_flat)
qed

lemma detailed_splits_total:
  assumes "numeric_remote e"
  shows "\<exists>rep. fst (get_detailed_pitch_splits e pid yr tr) = Inr rep"
proof -
  have "\<forall>(k, d) \<in> set (fst (pitch_loop e pid yr tr)). rollable d"
    using pitch_loop_stored(3) fetched_rollable [OF assms] by fastforce
  from group_loop_total [OF this, of "now e"] obtain sp' where
    "group_loop (now e) (fst (pitch_loop e pid yr tr)) = Inr sp'" by blast
  then show ?thesis by (simp add: get_detailed_pitch_splits_def Let_def)
qed

lemma detailed_splits_report:
  assumes "fst (get_detailed_pitch_splits e pid yr tr) = Inr rep"
  shows "group_loop (now e) (fst (pitch_loop e pid yr tr)) = Inr (splits rep)"
  using assms by (auto simp: get_detailed_pitch_splits_def Let_def split: sum.splits)


section \<open>The requests issued: auxiliary facts\<close>

lemma combined_url_eq:
  "combined_url pid yr ps = combined_url pid yr ps' \<longleftrightarrow>
     join ''&'' (url_params ps) = join ''&'' (url_params ps')"
  by (simp only: combined_url_def same_append_eq append_same_eq)

lemma param_strings:
  "join ''&'' (url_params (by_pitch p)) = ''hfPT='' @ p @ ''%7C''"
  "join ''&'' (url_params (by_hand p h)) = ''hfPT='' @ p @ ''%7C&pitcher_throws='' @ h"
  "join ''&'' (url_params (by_location p h l)) =
     ''hfPT='' @ p @ ''%7C&pitcher_throws='' @ h @ ''&home_road='' @ l"
  by (simp_all add: url_params_def by_pitch_def by_hand_def by_location_def)

lemma url_eq:
  "combined_url pid yr (by_pitch p) = combined_url pid yr (by_pitch p') \<longleftrightarrow> p = p'"
  "length p = length p' \<Longrightarrow>
     combined_url pid yr (by_pitch p) \<noteq> combined_url pid yr (by_hand p' h')"
  "length p = length p' \<Longrightarrow>
     combined_url pid yr (by_pitch p) \<noteq> combined_url pid yr (by_location p' h' l')"
  "length p = length p' \<Longrightarrow>
     combined_url pid yr (by_hand p' h') \<noteq> combined_url pid yr (by_pitch p)"
  "length p = length p' \<Longrightarrow> length h = length h' \<Longrightarrow>
     combined_url pid yr (by_hand p h) = combined_url pid yr (by_hand p' h') \<longleftrightarrow>
       p = p' \<and> h = h'"
  "length p = length p' \<Longrightarrow> length h = length h' \<Longrightarrow>
     combined_url pid yr (by_hand p h) \<noteq> combined_url pid yr (by_location p' h' l')"
  "length p = length p' \<Longrightarrow>
     combined_url pid yr (by_location p' h' l') \<noteq> combined_url pid yr (by_pitch p)"
  "length p = length p' \<Longrightarrow> length h = length h' \<Longrightarrow>
     combined_url pid yr (by_location p' h' l') \<noteq> combined_url pid yr (by_hand p h)"
  "length p = length p' \<Longrightarrow> length h = length h' \<Longrightarrow>
     combined_url pid yr (by_location p h l) = combined_url pid yr (by_location p' h' l') \<longleftrightarrow>
       p = p' \<and> h = h' \<and> l = l'"
  by (auto simp: combined_url_eq param_strings)

lemma location_step_trace:
  "set (snd (location_step e pid yr p h l st)) =
     set (snd st) \<union> {combined_url pid yr (by_location p h l)}"
  by (simp add: location_step_eq)

lemma hand_step_trace:
  "set (snd (hand_step e pid yr p h st)) =
     set (snd st) \<union> ({combined_url pid yr (by_hand p h)} \<union>
       (if accepted e pid yr (by_hand p h)
        then (\<Union>l \<in> set locations. {combined_url pid yr (by_location p h l)}) else {}))"
  by (simp add: hand_step_eq
      fold_trace [where U = "\<lambda>l. {combined_url pid yr (by_location p h l)}"]
      location_step_trace)

lemma pitch_step_trace:
  "set (snd (pitch_step e pid yr p st)) =
     set (snd st) \<union> ({combined_url pid yr (by_pitch p)} \<union>
       (if accepted e pid yr (by_pitch p)
        then (\<Union>h \<in> set pitcher_hands. {combined_url pid yr (by_hand p h)} \<union>
               (if accepted e pid yr (by_hand p h)
                then (\<Union>l \<in> set locations. {combined_url pid yr (by_location p h l)})
                else {}))
        else {}))"
  by (simp add: pitch_step_eq
      fold_trace [where U = "\<lambda>h. {combined_url pid yr (by_hand p h)} \<union>
               (if accepted e pid yr (by_hand p h)
                then (\<Union>l \<in> set locations. {combined_url pid yr (by_location p h l)})
                else {})"]
      hand_step_trace)

lemma pitch_loop_trace:
  "set (snd (pitch_loop e pid yr tr)) =
     set tr \<union> (\<Union>p \<in> set pitch_types. {combined_url pid yr (by_pitch p)} \<union>
       (if accepted e pid yr (by_pitch p)
        then (\<Union>h \<in> set pitcher_hands. {combined_url pid yr (by_hand p h)} \<union>
               (if accepted e pid yr (by_hand p h)
                then (\<Union>l \<in> set locations. {combined_url pid yr (by_location p h l)})
                else {}))
        else {}))"
  unfolding pitch_loop_def
  by (subst fold_trace [where U = "\<lambda>p. {combined_url pid yr (by_pitch p)} \<union>
       (if accepted e pid yr (by_pitch p)
        then (\<Union>h \<in> set pitcher_hands. {combined_url pid yr (by_hand p h)} \<union>
               (if accepted e pid yr (by_hand p h)
                then (\<Union>l \<in> set locations. {combined_url pid yr (by_location p h l)})
                else {}))
        else {})"])
    (simp_all add: pitch_step_trace)

lemma hand_request_gated:
  assumes "combined_url pid yr (by_hand p h) \<in> set (snd (pitch_loop e pid yr []))"
    "p \<in> set pitch_types" "h \<in> set pitcher_hands"
  shows "accepted e pid yr (by_pitch p)"
proof -
  have len: "length p = length p'" if "p' \<in> set pitch_types" for p'
    using that assms(2) by (simp add: pitch_types_length)
  have hl: "length h = length h'" if "h' \<in> set pitcher_hands" for h'
    using that assms(3) by (simp add: pitcher_hands_length)
  from assms(1) obtain p' where p': "p' \<in> set pitch_types"
    and m: "combined_url pid yr (by_hand p h) = combined_url pid yr (by_pitch p') \<or>
      accepted e pid yr (by_pitch p') \<and>
        (\<exists>h' \<in> set pitcher_hands.
           combined_url pid yr (by_hand p h) = combined_url pid yr (by_hand p' h') \<or>
           accepted e pid yr (by_hand p' h') \<and>
             (\<exists>l' \<in> set locations.
                combined_url pid yr (by_hand p h) = combined_url pid yr (by_location p' h' l')))"
    unfolding pitch_loop_trace by (auto split: if_splits)
  from m len [OF p'] hl show ?thesis
    by (auto simp: url_eq)
qed

lemma location_request_gated:
  assumes "combined_url pid yr (by_location p h l) \<in> set (snd (pitch_loop e pid yr []))"
    "p \<in> set pitch_types" "h \<in> set pitcher_hands"
  shows "accepted e pid yr (by_pitch p) \<and> accepted e pid yr (by_hand p h)"
proof -
  have len: "length p = length p'" if "p' \<in> set pitch_types" for p'
    using that assms(2) by (simp add: pitch_types_length)
  have hl: "length h = length h'" if "h' \<in> set pitcher_hands" for h'
    using that assms(3) by (simp add: pitcher_hands_length)
  from assms(1) obtain p' where p': "p' \<in> set pitch_types"
    and m: "combined_url pid yr (by_location p h l) = combined_url pid yr (by_pitch p') \<or>
      accepted e pid yr (by_pitch p') \<and>
        (\<exists>h' \<in> set pitcher_hands.
           combined_url pid yr (by_location p h l) = combined_url pid yr (by_hand p' h') \<or>
           accepted e pid yr (by_hand p' h') \<and>
             (\<exists>l' \<in> set locations.
                combined_url pid yr (by_location p h l)
                  = combined_url pid yr (by_location p' h' l')))"
    unfolding pitch_loop_trace by (auto split: if_splits)
  from m len [OF p'] hl show ?thesis
    by (auto simp: url_eq)
qed

lemma requests_issued:
  assumes "p \<in> set pitch_types" "h \<in> set pitcher_hands" "l \<in> set locations"
  shows "combined_url pid yr (by_pitch p) \<in> set (snd (pitch_loop e pid yr tr))"
    "accepted e pid yr (by_pitch p) \<Longrightarrow>
       combined_url pid yr (by_hand p h) \<in> set (snd (pitch_loop e pid yr tr))"
    "accepted e pid yr (by_pitch p) \<Longrightarrow> accepted e pid yr (by_hand p h) \<Longrightarrow>
       combined_url pid yr (by_location p h l) \<in> set (snd (pitch_loop e pid yr tr))"
  using assms unfolding pitch_loop_trace by auto


section \<open>The examples and the report: auxiliary facts\<close>

lemma fetched_eq:
  "fetched e pid yr ps =
     combined_stats (now e) (combined_split_name ps) ps (requests_get e (combined_url pid yr ps))"
  by (simp add: fetched_def get_combined_split_data_def Let_def)




lemma combined_stats_sparse_row:
  "combined_stats clock label ps (Some (answer_row sparse_row)) = Some (sparse_record clock label ps)"
proof -
  have "combined_record clock label ps [sparse_row] = Some (sparse_record clock label ps)"
    by (simp add: combined_record_def str_or_na_def ops_or_na_def int_or_zero_def
        add_whiffs_def str_col_def float_col_def int_col_def in_columns_value0
        sparse_row_value0 sparse_record_def)
  then show ?thesis
    by (simp add: combined_stats_def answer_row_def in_columns_value0 sparse_row_value0
        example_rows_not_empty)
qed

lemma numeric_rows:
  "value0 [rate_row a n] c = Some x \<Longrightarrow> numeric x"
  "value0 [sparse_row] c = Some x \<Longrightarrow> numeric x"
  "value0 [full_row] c = Some x \<Longrightarrow> numeric x"
  by (auto simp: value0_def rate_row_def sparse_row_def full_row_def split: if_splits)

lemma numeric_answering:
  assumes "\<And>u r data c x. (u, r) \<in> set table \<Longrightarrow> read_csv r = Some data \<Longrightarrow>
             value0 data c = Some x \<Longrightarrow> numeric x"
  shows "numeric_remote (answering table)"
  unfolding numeric_remote_def
proof (intro allI impI)
  fix u r data c x
  assume a: "requests_get (answering table) u = Some r \<and> read_csv r = Some data \<and>
    value0 data c = Some x"
  show "numeric x"
  proof (cases "map_of table u")
    case None
    with a show ?thesis by (auto simp: answering_def not_found_def)
  next
    case (Some r')
    with a have "(u, r) \<in> set table" by (auto simp: answering_def dest: map_of_SomeD)
    with a assms show ?thesis by blast
  qed
qed

lemma numeric_examples:
  "numeric_remote one_split" "numeric_remote two_breaking" "numeric_remote one_unavailable"
  "numeric_remote ff_down" "numeric_remote steady"
proof -
  show "numeric_remote one_split" unfolding one_split_def
    by (rule numeric_answering) (auto simp: answer_row_def dest: numeric_rows)
  show "numeric_remote two_breaking" unfolding two_breaking_def
    by (rule numeric_answering) (auto simp: answer_row_def dest: numeric_rows)
  show "numeric_remote one_unavailable" unfolding one_unavailable_def
    by (rule numeric_answering) (auto simp: answer_row_def dest: numeric_rows)
  show "numeric_remote ff_down"
    by (auto simp: numeric_remote_def ff_down_def not_found_def answer_row_def
        split: if_splits dest: numeric_rows)
  show "numeric_remote steady"
    by (auto simp: numeric_remote_def steady_def answer_row_def dest: numeric_rows)
qed

subsection \<open>The rollup in the report\<close>



lemma report_pitch_keys:
  assumes "fst (get_detailed_pitch_splits e pid yr tr) = Inr rep"
  shows "map_of (splits rep) (pitch_key p) = map_of (fst (pitch_loop e pid yr tr)) (pitch_key p)"
    "map_of (splits rep) (hand_key p h) = map_of (fst (pitch_loop e pid yr tr)) (hand_key p h)"
    "map_of (splits rep) (loc_key p h l) = map_of (fst (pitch_loop e pid yr tr)) (loc_key p h l)"
  using group_loop_frame [OF detailed_splits_report [OF assms]] group_key_neq
  by metis+


lemma group_members:
  "(''Fastball'', [''FF'', ''SI'', ''FC'']) \<in> set pitch_groups"
  "(''Breaking'', [''CU'', ''KC'', ''CS'', ''SL'', ''ST'', ''SV'', ''KN'']) \<in> set pitch_groups"
  "(''Offspeed'', [''CH'', ''FS'', ''FO'', ''SC'']) \<in> set pitch_groups"
  "set [''FF'', ''SI'', ''FC''] \<subseteq> set pitch_types"
  "set [''CU'', ''KC'', ''CS'', ''SL'', ''ST'', ''SV'', ''KN''] \<subseteq> set pitch_types"
  "''L'' \<in> set pitcher_hands" "''R'' \<in> set pitcher_hands"
  "''Home'' \<in> set locations" "''Road'' \<in> set locations"
  by (simp_all add: pitch_groups_def pitch_types_def pitcher_hands_def locations_def)


section \<open>The summarizer: auxiliary facts\<close>
















section \<open>The first example run: auxiliary facts\<close>









section \<open>The gates: auxiliary facts\<close>

lemma detailed_splits_trace:
  "snd (get_detailed_pitch_splits e pid yr tr) = snd (pitch_loop e pid yr tr)"
  by (simp add: get_detailed_pitch_splits_def Let_def)

lemma key_stored: "k \<in> fst ` set sp \<longleftrightarrow> map_of sp k \<noteq> None"
  by (simp add: map_of_eq_None_iff)

lemma accepted_some: "accepted e pid yr ps \<Longrightarrow> fetched e pid yr ps \<noteq> None"
  by (cases "fetched e pid yr ps") (simp_all add: accepted_def)

lemma steady_accepts: "accepted steady pid yr ps"
  by (simp add: accepted_def fetched_eq steady_def combined_stats_full_row
      combined_record_full_row at_bats_def)


section \<open>Failed requests: auxiliary facts\<close>






section \<open>Notable splits\<close>



section \<open>Thresholds of the report\<close>




section \<open>OPS is recomputed locally\<close>



section \<open>The expansion is gated\<close>

text \<open>
  C5. In a run of \<^verbatim>\<open>get_detailed_pitch_splits\<close>, a request for a pitch type broken out by
  hand is issued only if the overall record of the pitch type has at least five at-bats,
  and a request broken out by location only if the record of the pitch type and hand has
  at least five at-bats. Hence, in the report, the key of a pitch type, hand and location
  comes with the key of the pitch type and hand, which comes with the key of the pitch
  type.
\<close>

theorem expansion_is_gated:
  "(p \<in> set pitch_types \<and> h \<in> set pitcher_hands \<and>
    combined_url pid yr (by_hand p h) \<in> set (snd (get_detailed_pitch_splits e pid yr [])) \<longrightarrow>
      accepted e pid yr (by_pitch p)) \<and>
   (p \<in> set pitch_types \<and> h \<in> set pitcher_hands \<and>
    combined_url pid yr (by_location p h l) \<in> set (snd (get_detailed_pitch_splits e pid yr []))
      \<longrightarrow> accepted e pid yr (by_hand p h)) \<and>
   (fst (get_detailed_pitch_splits e pid yr []) = Inr rep \<and> p \<in> set pitch_types \<and>
    h \<in> set pitcher_hands \<and> l \<in> set locations \<and> loc_key p h l \<in> fst ` set (splits rep) \<longrightarrow>
      hand_key p h \<in> fst ` set (splits rep)) \<and>
   (fst (get_detailed_pitch_splits e pid yr []) = Inr rep \<and> p \<in> set pitch_types \<and>
    h \<in> set pitcher_hands \<and> hand_key p h \<in> fst ` set (splits rep) \<longrightarrow>
      pitch_key p \<in> fst ` set (splits rep))"
proof (intro conjI impI)
  assume "p \<in> set pitch_types \<and> h \<in> set pitcher_hands \<and>
    combined_url pid yr (by_hand p h) \<in> set (snd (get_detailed_pitch_splits e pid yr []))"
  then show "accepted e pid yr (by_pitch p)"
    by (auto simp: detailed_splits_trace intro: hand_request_gated)
next
  assume "p \<in> set pitch_types \<and> h \<in> set pitcher_hands \<and>
    combined_url pid yr (by_location p h l) \<in> set (snd (get_detailed_pitch_splits e pid yr []))"
  then show "accepted e pid yr (by_hand p h)"
    using location_request_gated [of pid yr p h l e] by (simp add: detailed_splits_trace)
next
  assume a: "fst (get_detailed_pitch_splits e pid yr []) = Inr rep \<and> p \<in> set pitch_types \<and>
    h \<in> set pitcher_hands \<and> l \<in> set locations \<and> loc_key p h l \<in> fst ` set (splits rep)"
  then have rep: "fst (get_detailed_pitch_splits e pid yr []) = Inr rep" by simp
  from a have "map_of (fst (pitch_loop e pid yr [])) (loc_key p h l) \<noteq> None"
    by (simp add: key_stored report_pitch_keys [OF rep])
  with a have "accepted e pid yr (by_pitch p) \<and> accepted e pid yr (by_hand p h)"
    by (auto simp: pitch_loop_location split: if_splits)
  with a show "hand_key p h \<in> fst ` set (splits rep)"
    by (simp add: key_stored report_pitch_keys [OF rep] pitch_loop_hand accepted_some)
next
  assume a: "fst (get_detailed_pitch_splits e pid yr []) = Inr rep \<and> p \<in> set pitch_types \<and>
    h \<in> set pitcher_hands \<and> hand_key p h \<in> fst ` set (splits rep)"
  then have rep: "fst (get_detailed_pitch_splits e pid yr []) = Inr rep" by simp
  from a have "map_of (fst (pitch_loop e pid yr [])) (hand_key p h) \<noteq> None"
    by (simp add: key_stored report_pitch_keys [OF rep])
  with a have "accepted e pid yr (by_pitch p)"
    by (auto simp: pitch_loop_hand split: if_splits)
  with a show "pitch_key p \<in> fst ` set (splits rep)"
    by (simp add: key_stored report_pitch_keys [OF rep] pitch_loop_pitch accepted_some)
qed

text \<open>
  The witness of C5: on a service that answers every request with twenty at-bats, all
  three levels of the four-seam fastball are requested and stored.
\<close>

theorem expansion_is_gated_witness:
  "\<exists>rep. fst (get_detailed_pitch_splits steady 592450 2024 []) = Inr rep \<and>
     combined_url 592450 2024 (by_hand ''FF'' ''L'')
       \<in> set (snd (get_detailed_pitch_splits steady 592450 2024 [])) \<and>
     combined_url 592450 2024 (by_location ''FF'' ''L'' ''Home'')
       \<in> set (snd (get_detailed_pitch_splits steady 592450 2024 [])) \<and>
     accepted steady 592450 2024 (by_pitch ''FF'') \<and>
     accepted steady 592450 2024 (by_hand ''FF'' ''L'') \<and>
     loc_key ''FF'' ''L'' ''Home'' \<in> fst ` set (splits rep) \<and>
     hand_key ''FF'' ''L'' \<in> fst ` set (splits rep) \<and>
     pitch_key ''FF'' \<in> fst ` set (splits rep)"
proof -
  from detailed_splits_total [OF numeric_examples(5)] obtain rep where
    rep: "fst (get_detailed_pitch_splits steady 592450 2024 []) = Inr rep" by blast
  have ff: "''FF'' \<in> set pitch_types" using group_members(4) by simp
  note m = ff group_members(6) group_members(8)
  have u: "combined_url 592450 2024 (by_hand ''FF'' ''L'')
       \<in> set (snd (get_detailed_pitch_splits steady 592450 2024 []))"
    "combined_url 592450 2024 (by_location ''FF'' ''L'' ''Home'')
       \<in> set (snd (get_detailed_pitch_splits steady 592450 2024 []))"
    unfolding detailed_splits_trace
    by (rule requests_issued [OF m] steady_accepts)+
  have k: "loc_key ''FF'' ''L'' ''Home'' \<in> fst ` set (splits rep)"
    by (simp add: key_stored report_pitch_keys [OF rep] pitch_loop_location [OF m]
        steady_accepts accepted_some)
  note t = expansion_is_gated [of "''FF''" "''L''" 592450 2024 steady "''Home''" rep]
  from t m u have a: "accepted steady 592450 2024 (by_pitch ''FF'')"
    "accepted steady 592450 2024 (by_hand ''FF'' ''L'')" by blast+
  from t m rep k have h: "hand_key ''FF'' ''L'' \<in> fst ` set (splits rep)" by blast
  from t m rep h have "pitch_key ''FF'' \<in> fst ` set (splits rep)" by blast
  with rep u a k h show ?thesis by blast
qed

section \<open>Identity lookup: results\<close>

text \<open>
  C6, as the specification states it, fails: with two candidates in the directory
  \<^verbatim>\<open>get_player_id\<close> hands back one numeric identifier, the first candidate's, and not
  the list of candidates.
\<close>

theorem get_player_id_two_candidates:
  "length (lookup_player two_smiths ''Will Smith'') = 2 \<and>
   get_player_id two_smiths ''Will Smith'' = Some 669257"
  by (simp add: two_smiths_def get_player_id_def)

text \<open>
  C6, amended: a name with no match gives no identifier, and a name with one or several
  candidates gives the identifier of the first candidate in the directory's order.
\<close>

theorem get_player_id_first_candidate:
  "(lookup_player e player_name = [] \<longrightarrow> get_player_id e player_name = None) \<and>
   (lookup_player e player_name \<noteq> [] \<longrightarrow>
      get_player_id e player_name = Some (id (hd (lookup_player e player_name))))"
  by (simp add: get_player_id_def split: list.splits)

theorem get_player_id_first_candidate_witness:
  "get_player_id two_smiths ''Nobody'' = None \<and>
   get_player_id two_smiths ''Will Smith'' = Some 669257"
  using get_player_id_first_candidate [of two_smiths "''Nobody''"]
        get_player_id_first_candidate [of two_smiths "''Will Smith''"]
  by (simp add: two_smiths_def)

section \<open>A request that fails\<close>




section \<open>Absent columns\<close>




end
